theory Spec2Isabelle
  imports Main
begin

section \<open>JavaScript values\<close>

text \<open>
  The two React components and the cloud function handle a few untyped JavaScript
  values: the claims of an id token, the snapshot handed to a realtime-database
  listener, the object written to the database. \<open>Method r\<close> is a function object;
  \<open>r\<close> is what calling it without arguments returns. Numbers are the integers the
  program meets (timestamps, counts).
\<close>

datatype jsval =
    Undefined
  | Null
  | Bool bool
  | Num int
  | Str string
  | Arr "jsval list"
  | Obj "(string \<times> jsval) list"
  | Method jsval

datatype error = TypeError | Failure string

text \<open>JavaScript's ToBoolean, as used by \<open>if (x)\<close> and \<open>!x\<close>.\<close>

fun truthy :: "jsval \<Rightarrow> bool" where
  "truthy Undefined = False"
| "truthy Null = False"
| "truthy (Bool b) = b"
| "truthy (Num n) = (n \<noteq> 0)"
| "truthy (Str s) = (s \<noteq> [])"
| "truthy (Arr xs) = True"
| "truthy (Obj fs) = True"
| "truthy (Method r) = True"

text \<open>\<open>o[k]\<close> on an object: the value stored under \<open>k\<close>, \<open>undefined\<close> when there is none.\<close>

definition lookup :: "(string \<times> jsval) list \<Rightarrow> string \<Rightarrow> jsval" where
  "lookup fs k = (case map_of fs k of None \<Rightarrow> Undefined | Some v \<Rightarrow> v)"

text \<open>
  \<open>x.k\<close> on any value: reading a property of \<open>undefined\<close> or \<open>null\<close> throws a
  TypeError; the other values that are not objects have no property of their own here.
\<close>

fun get_prop :: "jsval \<Rightarrow> string \<Rightarrow> error + jsval" where
  "get_prop Undefined k = Inl TypeError"
| "get_prop Null k = Inl TypeError"
| "get_prop (Obj fs) k = Inr (lookup fs k)"
| "get_prop v k = Inr Undefined"

section \<open>Auth.js: the authentication wrapper\<close>

subsection \<open>Data\<close>

text \<open>A Firebase user, as far as the components read it.\<close>

record user =
  uid :: string
  displayName :: "string option"

text \<open>
  The value kept by \<open>useState\<close>: \<open>{ status: 'loading' }\<close>, \<open>{ status: 'out' }\<close>
  or \<open>{ status: 'in', user, token }\<close>. A field the object literal leaves out is
  \<open>None\<close>.
\<close>

record auth_state =
  status :: string
  user :: "user option"
  token :: "string option"

record idTokenResult =
  claims :: "(string \<times> jsval) list"

text \<open>
  A DataSnapshot as the realtime database delivers it to an \<open>on('value', ...)\<close>
  listener, holding the value \<open>v\<close> (\<open>null\<close> when the location has no data). In the
  Firebase SDK \<open>exists\<close> and \<open>val\<close> are methods of the snapshot.
\<close>

definition dataSnapshot :: "jsval \<Rightarrow> jsval" where
  "dataSnapshot v = Obj [(''exists'', Method (Bool (v \<noteq> Null))), (''val'', Method v)]"

subsection \<open>Effects and promises\<close>

text \<open>
  What a handler of the Auth component does to the outside, in the order it does it.
  \<open>DatabaseOn p u\<close> is \<open>ref(p).on('value', listener)\<close> where the listener closes over
  the user \<open>u\<close>.
\<close>

datatype effect =
    SetAuthState auth_state
  | GetIdToken user bool
  | GetIdTokenResult user
  | DatabaseOn string user
  | SignInWithPopup
  | FirebaseSignOut
  | ConsoleLog error

text \<open>
  A settled promise together with the effects performed on the way: \<open>Inr v\<close> is
  resolved with \<open>v\<close>, \<open>Inl e\<close> rejected with \<open>e\<close>. The effects are of type \<open>'x\<close>:
  the browser component and the cloud function each have their own.
\<close>

type_synonym ('x, 'a) settled = "'x list \<times> (error + 'a)"

type_synonym 'a promise = "(effect, 'a) settled"

definition resolved :: "'a \<Rightarrow> ('x, 'a) settled" where
  "resolved v = ([], Inr v)"

definition rejected :: "error \<Rightarrow> ('x, 'a) settled" where
  "rejected e = ([], Inl e)"

text \<open>
  \<open>const x = await p; k(x)\<close> inside an async function, and \<open>p.then(k)\<close> on a
  promise chain.
\<close>

definition await :: "('x, 'a) settled \<Rightarrow> ('a \<Rightarrow> ('x, 'b) settled) \<Rightarrow> ('x, 'b) settled" where
  "await p k =
     (case snd p of
        Inl e \<Rightarrow> (fst p, Inl e)
      | Inr v \<Rightarrow> (fst p @ fst (k v), snd (k v)))"

text \<open>
  \<open>try { p } catch (error) { h(error) }\<close> inside an async function, and
  \<open>p.catch(h)\<close> on a promise chain.
\<close>

definition try_catch :: "('x, 'a) settled \<Rightarrow> (error \<Rightarrow> ('x, 'a) settled) \<Rightarrow> ('x, 'a) settled" where
  "try_catch p h =
     (case snd p of
        Inl e \<Rightarrow> (fst p @ fst (h e), snd (h e))
      | Inr v \<Rightarrow> p)"

definition perform :: "'x \<Rightarrow> ('x, unit) settled" where
  "perform x = ([x], Inr ())"

text \<open>
  What the Firebase SDK answers while one handler runs: each call either resolves or
  rejects. The component does not decide these; they are parameters of every handler.
\<close>

record firebase_env =
  getIdToken_outcome :: "user \<Rightarrow> bool \<Rightarrow> error + string"
  getIdTokenResult_outcome :: "user \<Rightarrow> error + idTokenResult"
  signInWithPopup_outcome :: "error + unit"
  signOut_outcome :: "error + unit"

definition getIdToken :: "firebase_env \<Rightarrow> user \<Rightarrow> bool \<Rightarrow> string promise" where
  "getIdToken env u forceRefresh =
     ([GetIdToken u forceRefresh], getIdToken_outcome env u forceRefresh)"

definition getIdTokenResult :: "firebase_env \<Rightarrow> user \<Rightarrow> idTokenResult promise" where
  "getIdTokenResult env u = ([GetIdTokenResult u], getIdTokenResult_outcome env u)"

definition signInWithPopup :: "firebase_env \<Rightarrow> unit promise" where
  "signInWithPopup env = ([SignInWithPopup], signInWithPopup_outcome env)"

definition firebase_signOut :: "firebase_env \<Rightarrow> unit promise" where
  "firebase_signOut env = ([FirebaseSignOut], signOut_outcome env)"

definition setAuthState :: "auth_state \<Rightarrow> unit promise" where
  "setAuthState s = perform (SetAuthState s)"

subsection \<open>The handlers of Auth\<close>

definition hasura_claims_key :: string where
  "hasura_claims_key = ''https://hasura.io/jwt/claims''"

definition refreshTime_path :: "user \<Rightarrow> string" where
  "refreshTime_path u = ''metadata/'' @ uid u @ ''/refreshTime''"

definition st_loading :: auth_state where
  "st_loading = \<lparr>status = ''loading'', user = None, token = None\<rparr>"

definition st_out :: auth_state where
  "st_out = \<lparr>status = ''out'', user = None, token = None\<rparr>"

definition st_in :: "user \<Rightarrow> string \<Rightarrow> auth_state" where
  "st_in u t = \<lparr>status = ''in'', user = Some u, token = Some t\<rparr>"

text \<open>The listener registered on \<open>metadata/{uid}/refreshTime\<close> (Auth.js, lines 36-46).\<close>

definition refresh_listener :: "firebase_env \<Rightarrow> user \<Rightarrow> jsval \<Rightarrow> unit promise" where
  "refresh_listener env u data =
     (case get_prop data ''exists'' of
        Inl e \<Rightarrow> rejected e
      | Inr ex \<Rightarrow>
          if \<not> truthy ex then resolved ()
          else await (getIdToken env u True) (\<lambda>token. setAuthState (st_in u token)))"

text \<open>The callback given to \<open>onAuthStateChanged\<close> (Auth.js, lines 22-51).\<close>

definition onAuthStateChanged_callback :: "firebase_env \<Rightarrow> user option \<Rightarrow> unit promise" where
  "onAuthStateChanged_callback env usr =
     (case usr of
        Some u \<Rightarrow>
          await (getIdToken env u False) (\<lambda>token.
          await (getIdTokenResult env u) (\<lambda>idTokenResult.
            let hasuraClaim = lookup (claims idTokenResult) hasura_claims_key in
            if truthy hasuraClaim then setAuthState (st_in u token)
            else perform (DatabaseOn (refreshTime_path u) u)))
      | None \<Rightarrow> setAuthState st_out)"

definition signInWithGoogle :: "firebase_env \<Rightarrow> unit promise" where
  "signInWithGoogle env =
     try_catch (signInWithPopup env) (\<lambda>error. perform (ConsoleLog error))"

definition signOut :: "firebase_env \<Rightarrow> unit promise" where
  "signOut env =
     try_catch
       (await (setAuthState st_loading) (\<lambda>_.
        await (firebase_signOut env) (\<lambda>_.
        setAuthState st_out)))
       (\<lambda>error. perform (ConsoleLog error))"

subsection \<open>The component as a transition system\<close>

text \<open>
  The state of a mounted Auth: the \<open>useState\<close> value, the database listeners
  registered so far (none is ever removed), and what was logged.
\<close>

record auth_component =
  authState :: auth_state
  listeners :: "(string \<times> user) list"
  console :: "error list"

definition initial :: auth_component where
  "initial = \<lparr>authState = st_loading, listeners = [], console = []\<rparr>"

fun apply_effect :: "auth_component \<Rightarrow> effect \<Rightarrow> auth_component" where
  "apply_effect c (SetAuthState s) = c\<lparr>authState := s\<rparr>"
| "apply_effect c (DatabaseOn p u) = c\<lparr>listeners := listeners c @ [(p, u)]\<rparr>"
| "apply_effect c (ConsoleLog e) = c\<lparr>console := console c @ [e]\<rparr>"
| "apply_effect c x = c"

definition apply_effects :: "auth_component \<Rightarrow> effect list \<Rightarrow> auth_component" where
  "apply_effects c xs = foldl apply_effect c xs"

text \<open>
  The events a mounted Auth reacts to. A value event at a database path calls every
  listener registered on that path. Clicks are taken as always possible, which only
  adds behaviours.
\<close>

datatype event =
    AuthStateChanged "user option"
  | DatabaseValue string jsval
  | ClickSignIn
  | ClickSignOut

text \<open>
  The listener is an async function. Calling it runs it up to its first \<open>await\<close>: the
  guard, and the call of \<open>getIdToken(true)\<close>. What follows the \<open>await\<close> runs once that
  promise has resolved.
\<close>

definition refresh_listener_called :: "firebase_env \<Rightarrow> user \<Rightarrow> jsval \<Rightarrow> effect list" where
  "refresh_listener_called env u data =
     (case get_prop data ''exists'' of
        Inl e \<Rightarrow> []
      | Inr ex \<Rightarrow> if \<not> truthy ex then [] else fst (getIdToken env u True))"

definition refresh_listener_resumed :: "firebase_env \<Rightarrow> user \<Rightarrow> jsval \<Rightarrow> effect list" where
  "refresh_listener_resumed env u data =
     (case get_prop data ''exists'' of
        Inl e \<Rightarrow> []
      | Inr ex \<Rightarrow>
          if \<not> truthy ex then []
          else (case snd (getIdToken env u True) of
                  Inl e \<Rightarrow> []
                | Inr t \<Rightarrow> fst (setAuthState (st_in u t))))"

text \<open>The users whose listeners are registered on a path, in the order of registration.\<close>

definition listeners_on :: "(string \<times> user) list \<Rightarrow> string \<Rightarrow> user list" where
  "listeners_on ls p = map snd (filter (\<lambda>l. fst l = p) ls)"

text \<open>
  A value event calls the listeners of its path one after the other, so every listener
  has reached its \<open>await\<close> before any of them goes on; they go on in the order of their
  calls.
\<close>

definition run_listeners :: "firebase_env \<Rightarrow> (string \<times> user) list \<Rightarrow> string \<Rightarrow> jsval \<Rightarrow> effect list" where
  "run_listeners env ls p data =
     concat (map (\<lambda>u. refresh_listener_called env u data) (listeners_on ls p)) @
     concat (map (\<lambda>u. refresh_listener_resumed env u data) (listeners_on ls p))"

fun dispatch :: "firebase_env \<Rightarrow> auth_component \<Rightarrow> event \<Rightarrow> effect list" where
  "dispatch env c (AuthStateChanged usr) = fst (onAuthStateChanged_callback env usr)"
| "dispatch env c (DatabaseValue p data) = run_listeners env (listeners c) p data"
| "dispatch env c ClickSignIn = fst (signInWithGoogle env)"
| "dispatch env c ClickSignOut = fst (signOut env)"

definition step :: "auth_component \<Rightarrow> firebase_env \<times> event \<Rightarrow> auth_component" where
  "step c ee = apply_effects c (dispatch (fst ee) c (snd ee))"

definition run :: "auth_component \<Rightarrow> (firebase_env \<times> event) list \<Rightarrow> auth_component" where
  "run c evs = foldl step c evs"

text \<open>The shape of the \<open>useState\<close> value that \<open>App\<close> relies on when the status is \<open>'in'\<close>.\<close>

definition wf_auth_state :: "auth_state \<Rightarrow> bool" where
  "wf_auth_state s = (status s = ''in'' \<longrightarrow> (\<exists>u t. s = st_in u t))"

text \<open>The listeners the component can register: each on the path of its own user.\<close>

definition registered_paths :: "(string \<times> user) set" where
  "registered_paths = {(p, u). p = refreshTime_path u}"

text \<open>
  A JWT is a string whose payload decodes to its claims. Auth never decodes the token
  it stores, so what a token carries is given by the decoding, a parameter: the state
  carries the Hasura claims when its token decodes to claims that pass the test the
  callback applies to the id token result.
\<close>

definition carries_hasura_claims :: "(string \<Rightarrow> (string \<times> jsval) list) \<Rightarrow> auth_state \<Rightarrow> bool" where
  "carries_hasura_claims decode s =
     (case token s of
        None \<Rightarrow> False
      | Some t \<Rightarrow> truthy (lookup (decode t) hasura_claims_key))"

section \<open>App.js: the data component\<close>

subsection \<open>The static GraphQL documents\<close>

text \<open>
  A document as \<open>gql\<close> parses it: a list of definitions, each with its kind, its
  operation type (a fragment definition has none), its name, its variables and its
  selection set. A field's arguments are kept as written.
\<close>

datatype selection = Field string string "selection list"

record gql_definition =
  kind :: string
  operation :: "string option"
  def_name :: string
  variableDefinitions :: "(string \<times> string) list"
  selectionSet :: "selection list"

record gql_document =
  definitions :: "gql_definition list"

definition PL_SUB :: gql_document where
  "PL_SUB = \<lparr>definitions = [\<lparr>
     kind = ''OperationDefinition'', operation = Some ''subscription'', def_name = ''PL'',
     variableDefinitions = [],
     selectionSet = [Field ''programming_language'' ''order_by: { vote_count: desc }''
       [Field ''name'' [] [], Field ''vote_count'' [] []]]\<rparr>]\<rparr>"

definition PL_WITH_LOVE_SUB :: gql_document where
  "PL_WITH_LOVE_SUB = \<lparr>definitions = [\<lparr>
     kind = ''OperationDefinition'', operation = Some ''subscription'',
     def_name = ''PL_WITH_LOVE'',
     variableDefinitions = [(''userId'', ''String!'')],
     selectionSet = [Field ''programming_language'' ''order_by: { vote_count: desc }''
       [Field ''name'' [] [], Field ''vote_count'' [] [],
        Field ''lovedLanguagesByname_aggregate'' ''where: { user_id: { _eq: $userId } }''
          [Field ''aggregate'' [] [Field ''count'' [] []]]]]\<rparr>]\<rparr>"

definition VOTE_MUTATION :: gql_document where
  "VOTE_MUTATION = \<lparr>definitions = [\<lparr>
     kind = ''OperationDefinition'', operation = Some ''mutation'', def_name = ''Vote'',
     variableDefinitions = [(''name'', ''String!'')],
     selectionSet = [Field ''update_programming_language''
       ''_inc: { vote_count: 1 } where: { name: { _eq: $name } }''
       [Field ''returning'' [] [Field ''vote_count'' [] []]]]\<rparr>]\<rparr>"

definition LOVE_MUTATION :: gql_document where
  "LOVE_MUTATION = \<lparr>definitions = [\<lparr>
     kind = ''OperationDefinition'', operation = Some ''mutation'', def_name = ''Love'',
     variableDefinitions = [(''name'', ''String!'')],
     selectionSet = [Field ''insert_loved_language'' ''objects: { name: $name }''
       [Field ''affected_rows'' [] []]]\<rparr>]\<rparr>"

definition UNLOVE_MUTATION :: gql_document where
  "UNLOVE_MUTATION = \<lparr>definitions = [\<lparr>
     kind = ''OperationDefinition'', operation = Some ''mutation'', def_name = ''Unlove'',
     variableDefinitions = [(''name'', ''String!'')],
     selectionSet = [Field ''delete_loved_language'' ''where: { name: { _eq: $name } }''
       [Field ''affected_rows'' [] []]]\<rparr>]\<rparr>"

text \<open>The \<open>gql\<close> constants of App.js, in the order of the file (lines 11-59).\<close>

definition static_documents :: "gql_document list" where
  "static_documents = [PL_SUB, PL_WITH_LOVE_SUB, VOTE_MUTATION, LOVE_MUTATION, UNLOVE_MUTATION]"

subsection \<open>Rendered elements\<close>

text \<open>
  What the two components render. \<open>Elem tag props children\<close> is a DOM element.
  \<open>Mutation doc variables child\<close> is react-apollo's \<open><Mutation>\<close> with its render prop
  applied to the mutate function; a \<open>Button Mutate label\<close> below it is the button whose
  \<open>onClick\<close> is that function. \<open>AppElement a\<close> is \<open><App authState={a} />\<close>.
\<close>

datatype onClick = SignOut | SignInWithGoogle | Mutate

datatype element =
    Nothing
  | Text string
  | Elem string "(string \<times> string) list" "element list"
  | Fragment "element list"
  | Button onClick string
  | Mutation gql_document "(string \<times> string) list" element
  | AppElement auth_state

text \<open>The render part of Auth (Auth.js, lines 72-94).\<close>

definition Auth_content :: "auth_state \<Rightarrow> error + element" where
  "Auth_content a =
     (if status a = ''loading'' then Inr Nothing
      else if status a = ''in'' then
        (case user a of
           None \<Rightarrow> Inl TypeError
         | Some u \<Rightarrow> Inr (Fragment
             [Elem ''div'' []
                [Elem ''div'' []
                   [Elem ''h2'' []
                      [Text ''Welcome, '',
                       (case displayName u of None \<Rightarrow> Nothing | Some n \<Rightarrow> Text n)],
                    Button SignOut ''Sign out'']],
              AppElement a]))
      else Inr (Fragment
             [Elem ''div'' [] [Button SignInWithGoogle ''Sign in with Google''],
              AppElement a]))"

definition Auth_render :: "auth_state \<Rightarrow> error + element" where
  "Auth_render a =
     (case Auth_content a of
        Inl e \<Rightarrow> Inl e
      | Inr content \<Rightarrow> Inr (Elem ''div'' [(''className'', ''auth'')] [content]))"

subsection \<open>Links\<close>

datatype link =
    HttpLink string "(string \<times> string) list"
  | WebSocketLink string bool "(string \<times> string) list"

definition isIn :: "auth_state \<Rightarrow> bool" where
  "isIn a = (status a = ''in'')"

text \<open>A template literal's \<open>${x}\<close> for a string that may be \<open>undefined\<close>.\<close>

definition interpolate :: "string option \<Rightarrow> string" where
  "interpolate x = (case x of None \<Rightarrow> ''undefined'' | Some s \<Rightarrow> s)"

definition headers :: "auth_state \<Rightarrow> (string \<times> string) list" where
  "headers a =
     (if isIn a then [(''Authorization'', ''Bearer '' @ interpolate (token a))] else [])"

definition httpLink :: "auth_state \<Rightarrow> link" where
  "httpLink a = HttpLink ''https://your-heroku-domain/v1alpha1/graphql'' (headers a)"

definition wsLink :: "auth_state \<Rightarrow> link" where
  "wsLink a = WebSocketLink ''wss://your-heroku-domain/v1alpha1/graphql'' True (headers a)"

record gql_request =
  query :: gql_document
  request_variables :: "(string \<times> string) list"

text \<open>
  The test given to \<open>split\<close> (App.js, lines 82-85). \<open>getMainDefinition\<close> belongs to
  apollo-utilities, not to this repository, so the test takes it as a parameter; it may
  throw.
\<close>

definition link_test ::
  "(gql_document \<Rightarrow> error + gql_definition) \<Rightarrow> gql_request \<Rightarrow> error + bool" where
  "link_test getMainDefinition req =
     (case getMainDefinition (query req) of
        Inl e \<Rightarrow> Inl e
      | Inr d \<Rightarrow> Inr (kind d = ''OperationDefinition'' \<and> operation d = Some ''subscription''))"

text \<open>
  apollo-link's \<open>split(test, left, right)\<close>: a request goes to \<open>left\<close> when the test
  holds of it and to \<open>right\<close> otherwise.
\<close>

definition split_link ::
  "(gql_request \<Rightarrow> error + bool) \<Rightarrow> link \<Rightarrow> link \<Rightarrow> gql_request \<Rightarrow> error + link" where
  "split_link test left right req =
     (case test req of
        Inl e \<Rightarrow> Inl e
      | Inr b \<Rightarrow> Inr (if b then left else right))"

definition link ::
  "(gql_document \<Rightarrow> error + gql_definition) \<Rightarrow> auth_state \<Rightarrow> gql_request \<Rightarrow> error + link" where
  "link getMainDefinition a = split_link (link_test getMainDefinition) (wsLink a) (httpLink a)"

text \<open>
  An instance of the parameter, after apollo-utilities: the first operation definition
  that is a query, a mutation or a subscription; failing that the first fragment
  definition; failing that an error.
\<close>

definition is_operation :: "gql_definition \<Rightarrow> bool" where
  "is_operation d =
     (kind d = ''OperationDefinition'' \<and>
      operation d \<in> {Some ''query'', Some ''mutation'', Some ''subscription''})"

definition main_definition :: "gql_document \<Rightarrow> error + gql_definition" where
  "main_definition doc =
     (case filter is_operation (definitions doc) of
        d # _ \<Rightarrow> Inr d
      | [] \<Rightarrow>
         (case filter (\<lambda>d. kind d = ''FragmentDefinition'') (definitions doc) of
            d # _ \<Rightarrow> Inr d
          | [] \<Rightarrow> Inl (Failure ''Expected a parsed GraphQL query'')))"

subsection \<open>The subscription and what it renders\<close>

definition subscription_document :: "auth_state \<Rightarrow> gql_document" where
  "subscription_document a = (if isIn a then PL_WITH_LOVE_SUB else PL_SUB)"

text \<open>\<open>None\<close> is \<open>null\<close>; reading \<open>uid\<close> of a missing user throws.\<close>

definition subscription_variables :: "auth_state \<Rightarrow> error + (string \<times> string) list option" where
  "subscription_variables a =
     (if isIn a then
        (case user a of
           None \<Rightarrow> Inl TypeError
         | Some u \<Rightarrow> Inr (Some [(''userId'', uid u)]))
      else Inr None)"

text \<open>What \<open>App\<close> hands to \<open>ApolloProvider\<close> and \<open>Subscription\<close> (App.js, lines 61-106).\<close>

record app_props =
  client_http :: link
  client_ws :: link
  subscription :: gql_document
  variables :: "(string \<times> string) list option"

definition App :: "auth_state \<Rightarrow> error + app_props" where
  "App a =
     (case subscription_variables a of
        Inl e \<Rightarrow> Inl e
      | Inr v \<Rightarrow> Inr \<lparr>client_http = httpLink a, client_ws = wsLink a,
                      subscription = subscription_document a, variables = v\<rparr>)"

text \<open>A row of the subscription's result; the aggregate is there only when selected.\<close>

record aggregate_fields =
  count :: int

record loved_aggregate =
  aggregate :: aggregate_fields

record pl =
  name :: string
  vote_count :: int
  lovedLanguagesByname_aggregate :: "loved_aggregate option"

record apollo_error =
  message :: string

record sub_data =
  programming_language :: "pl list option"

record sub_result =
  data :: "sub_data option"
  loading :: bool
  error :: "apollo_error option"

text \<open>Decimal digits of a number, for \<open>${vote_count}\<close>.\<close>

function string_of_nat :: "nat \<Rightarrow> string" where
  "string_of_nat n =
     (if n < 10 then [char_of (48 + n)]
      else string_of_nat (n div 10) @ [char_of (48 + n mod 10)])"
  by pat_completeness auto
termination
  by (relation "measure id") auto

declare string_of_nat.simps [simp del]

definition string_of_int :: "int \<Rightarrow> string" where
  "string_of_int i = (if i < 0 then ''-'' @ string_of_nat (nat (- i)) else string_of_nat (nat i))"

text \<open>\<open>xs.map(f)\<close> where \<open>f\<close> may throw: the first throw ends the map.\<close>

fun map_elements :: "('a \<Rightarrow> error + 'b) \<Rightarrow> 'a list \<Rightarrow> error + 'b list" where
  "map_elements f [] = Inr []"
| "map_elements f (x # xs) =
     (case f x of
        Inl e \<Rightarrow> Inl e
      | Inr y \<Rightarrow> (case map_elements f xs of Inl e \<Rightarrow> Inl e | Inr ys \<Rightarrow> Inr (y # ys)))"

text \<open>The body of the \<open>map\<close> callback (App.js, lines 113-146).\<close>

definition love_content :: "bool \<Rightarrow> pl \<Rightarrow> error + element" where
  "love_content signedIn p =
     (if signedIn then
        (case lovedLanguagesByname_aggregate p of
           None \<Rightarrow> Inl TypeError
         | Some agg \<Rightarrow>
            (let isLoved = (count (aggregate agg) = 1) in
             if isLoved then
               Inr (Mutation UNLOVE_MUTATION [(''name'', name p)] (Button Mutate ''Unlove''))
             else
               Inr (Mutation LOVE_MUTATION [(''name'', name p)] (Button Mutate ''Love''))))
      else Inr Nothing)"

definition render_pl :: "bool \<Rightarrow> pl \<Rightarrow> error + element" where
  "render_pl signedIn p =
     (case love_content signedIn p of
        Inl e \<Rightarrow> Inl e
      | Inr content \<Rightarrow> Inr (Elem ''li'' [(''key'', name p)]
          [Elem ''span'' [] [Text (name p @ '' - '' @ string_of_int (vote_count p))],
           Elem ''span'' []
             [Mutation VOTE_MUTATION [(''name'', name p)] (Button Mutate ''Vote''),
              content]]))"

text \<open>The render prop of \<open>Subscription\<close> (App.js, lines 107-149).\<close>

definition subscription_children :: "auth_state \<Rightarrow> sub_result \<Rightarrow> error + element" where
  "subscription_children a r =
     (if loading r then Inr (Text ''loading...'')
      else case error r of
        Some e \<Rightarrow> Inr (Text (message e))
      | None \<Rightarrow>
         (case data r of
            None \<Rightarrow> Inl TypeError
          | Some d \<Rightarrow>
             (case programming_language d of
                None \<Rightarrow> Inl TypeError
              | Some pls \<Rightarrow>
                 (case map_elements (render_pl (isIn a)) pls of
                    Inl e \<Rightarrow> Inl e
                  | Inr items \<Rightarrow> Inr (Elem ''ul'' [(''className'', ''pl-list'')] items)))))"

text \<open>
  The \<open>Mutation\<close> elements of a rendering with the label of the button each wraps, in
  document order.
\<close>

fun mutations :: "element \<Rightarrow> (gql_document \<times> (string \<times> string) list \<times> string) list" where
  "mutations Nothing = []"
| "mutations (Text s) = []"
| "mutations (Elem tg ps cs) = concat (map mutations cs)"
| "mutations (Fragment cs) = concat (map mutations cs)"
| "mutations (Button h l) = []"
| "mutations (Mutation doc vs (Button h l)) = [(doc, vs, l)]"
| "mutations (Mutation doc vs c) = mutations c"
| "mutations (AppElement a) = []"

section \<open>The cloud function\<close>

text \<open>What \<open>processSignUp\<close> does to the outside (index.js of the functions).\<close>

datatype cloud_effect =
    SetCustomUserClaims string jsval
  | DatabaseSet string jsval
  | CloudLog error

record cloud_env =
  setCustomUserClaims_outcome :: "error + unit"
  database_set_outcome :: "error + unit"
  now :: int

definition customClaims :: "user \<Rightarrow> jsval" where
  "customClaims u = Obj
     [(''https://hasura.io/jwt/claims'', Obj
        [(''x-hasura-default-role'', Str ''user''),
         (''x-hasura-allowed-roles'', Arr [Str ''user'']),
         (''x-hasura-user-id'', Str (uid u))])]"

definition setCustomUserClaims :: "cloud_env \<Rightarrow> string \<Rightarrow> jsval \<Rightarrow> (cloud_effect, unit) settled" where
  "setCustomUserClaims env i c = ([SetCustomUserClaims i c], setCustomUserClaims_outcome env)"

definition database_set :: "cloud_env \<Rightarrow> string \<Rightarrow> jsval \<Rightarrow> (cloud_effect, unit) settled" where
  "database_set env p v = ([DatabaseSet p v], database_set_outcome env)"

definition processSignUp :: "cloud_env \<Rightarrow> user \<Rightarrow> (cloud_effect, unit) settled" where
  "processSignUp env u =
     try_catch
       (await (setCustomUserClaims env (uid u) (customClaims u)) (\<lambda>_.
          database_set env (''metadata/'' @ uid u) (Obj [(''refreshTime'', Num (now env))])))
       (\<lambda>error. perform (CloudLog error))"

text \<open>
  The locations a \<open>set\<close> of \<open>v\<close> at \<open>p\<close> gives a value: one per field when \<open>v\<close> is an
  object, \<open>p\<close> itself otherwise.
\<close>

definition written :: "string \<Rightarrow> jsval \<Rightarrow> (string \<times> jsval) list" where
  "written p v =
     (case v of
        Obj fs \<Rightarrow> map (\<lambda>kv. (p @ ''/'' @ fst kv, snd kv)) fs
      | _ \<Rightarrow> [(p, v)])"

section \<open>Sample inputs\<close>

definition alice :: user where
  "alice = \<lparr>uid = ''a1'', displayName = Some ''Alice''\<rparr>"

definition hasura_token :: idTokenResult where
  "hasura_token = \<lparr>claims = [(''https://hasura.io/jwt/claims'', Obj [(''x-hasura-user-id'', Str ''a1'')])]\<rparr>"

definition plain_token :: idTokenResult where
  "plain_token = \<lparr>claims = [(''sub'', Str ''a1'')]\<rparr>"

text \<open>Every call resolves; the id token carries the Hasura claims.\<close>

definition env_claims :: firebase_env where
  "env_claims = \<lparr>
     getIdToken_outcome = (\<lambda>u force. Inr (if force then ''jwt-2'' else ''jwt-1'')),
     getIdTokenResult_outcome = (\<lambda>u. Inr hasura_token),
     signInWithPopup_outcome = Inr (),
     signOut_outcome = Inr ()\<rparr>"

text \<open>Every call resolves; the id token does not carry the Hasura claims yet.\<close>

definition env_plain :: firebase_env where
  "env_plain = \<lparr>
     getIdToken_outcome = (\<lambda>u force. Inr (if force then ''jwt-2'' else ''jwt-1'')),
     getIdTokenResult_outcome = (\<lambda>u. Inr plain_token),
     signInWithPopup_outcome = Inr (),
     signOut_outcome = Inr ()\<rparr>"

text \<open>Signing out and signing in are rejected.\<close>

definition env_offline :: firebase_env where
  "env_offline = \<lparr>
     getIdToken_outcome = (\<lambda>u force. Inl (Failure ''network'')),
     getIdTokenResult_outcome = (\<lambda>u. Inl (Failure ''network'')),
     signInWithPopup_outcome = Inl (Failure ''network''),
     signOut_outcome = Inl (Failure ''network'')\<rparr>"

text \<open>
  The claims of the sample tokens: only \<open>jwt-with-claims\<close> was issued after the cloud
  function had set the custom claims.
\<close>

definition sample_claims :: "string \<Rightarrow> (string \<times> jsval) list" where
  "sample_claims t =
     (if t = ''jwt-with-claims'' then claims hasura_token else claims plain_token)"

text \<open>
  A user created a moment ago: the cloud function has not set the custom claims yet,
  so the id token, refreshed or not, is still the one without them.
\<close>

definition env_new_user :: firebase_env where
  "env_new_user = \<lparr>
     getIdToken_outcome = (\<lambda>u force. Inr ''jwt-without-claims''),
     getIdTokenResult_outcome = (\<lambda>u. Inr \<lparr>claims = sample_claims ''jwt-without-claims''\<rparr>),
     signInWithPopup_outcome = Inr (),
     signOut_outcome = Inr ()\<rparr>"

text \<open>A mounted Auth with a signed-in user.\<close>

definition signed_in_alice :: auth_component where
  "signed_in_alice = \<lparr>authState = st_in alice ''jwt-1'', listeners = [], console = []\<rparr>"

definition haskell :: pl where
  "haskell = \<lparr>name = ''Haskell'', vote_count = 12,
     lovedLanguagesByname_aggregate = Some \<lparr>aggregate = \<lparr>count = 1\<rparr>\<rparr>\<rparr>"

definition cobol :: pl where
  "cobol = \<lparr>name = ''COBOL'', vote_count = 3,
     lovedLanguagesByname_aggregate = Some \<lparr>aggregate = \<lparr>count = 0\<rparr>\<rparr>\<rparr>"

definition rust :: pl where
  "rust = \<lparr>name = ''Rust'', vote_count = 7, lovedLanguagesByname_aggregate = None\<rparr>"

definition result_loading :: sub_result where
  "result_loading = \<lparr>data = None, loading = True, error = None\<rparr>"

definition result_error :: sub_result where
  "result_error = \<lparr>data = None, loading = False, error = Some \<lparr>message = ''connection lost''\<rparr>\<rparr>"

definition result_rows :: sub_result where
  "result_rows = \<lparr>data = Some \<lparr>programming_language = Some [haskell, cobol]\<rparr>,
     loading = False, error = None\<rparr>"

definition result_empty :: sub_result where
  "result_empty = \<lparr>data = None, loading = False, error = None\<rparr>"


definition li_haskell_in :: element where
  "li_haskell_in = Elem ''li'' [(''key'', ''Haskell'')]
     [Elem ''span'' [] [Text ''Haskell - 12''],
      Elem ''span'' []
        [Mutation VOTE_MUTATION [(''name'', ''Haskell'')] (Button Mutate ''Vote''),
         Mutation UNLOVE_MUTATION [(''name'', ''Haskell'')] (Button Mutate ''Unlove'')]]"

definition li_cobol_in :: element where
  "li_cobol_in = Elem ''li'' [(''key'', ''COBOL'')]
     [Elem ''span'' [] [Text ''COBOL - 3''],
      Elem ''span'' []
        [Mutation VOTE_MUTATION [(''name'', ''COBOL'')] (Button Mutate ''Vote''),
         Mutation LOVE_MUTATION [(''name'', ''COBOL'')] (Button Mutate ''Love'')]]"



definition cloud_ok :: cloud_env where
  "cloud_ok = \<lparr>setCustomUserClaims_outcome = Inr (), database_set_outcome = Inr (),
     now = 1554000000000\<rparr>"

definition cloud_claims_fail :: cloud_env where
  "cloud_claims_fail = \<lparr>setCustomUserClaims_outcome = Inl (Failure ''auth/internal-error''),
     database_set_outcome = Inr (), now = 1554000000000\<rparr>"

definition cloud_set_fail :: cloud_env where
  "cloud_set_fail = \<lparr>setCustomUserClaims_outcome = Inr (),
     database_set_outcome = Inl (Failure ''permission denied''), now = 1554000000000\<rparr>"

section \<open>Properties of Auth\<close>

lemmas promise_defs = await_def try_catch_def perform_def resolved_def rejected_def
  setAuthState_def getIdToken_def getIdTokenResult_def signInWithPopup_def firebase_signOut_def

lemma callback_with_claims:
  assumes "getIdToken_outcome env u False = Inr t"
    and "getIdTokenResult_outcome env u = Inr r"
    and "truthy (lookup (claims r) hasura_claims_key)"
  shows "onAuthStateChanged_callback env (Some u) =
           ([GetIdToken u False, GetIdTokenResult u, SetAuthState (st_in u t)], Inr ())"
  using assms by (simp add: onAuthStateChanged_callback_def promise_defs)

lemma callback_without_claims:
  assumes "getIdToken_outcome env u False = Inr t"
    and "getIdTokenResult_outcome env u = Inr r"
    and "\<not> truthy (lookup (claims r) hasura_claims_key)"
  shows "onAuthStateChanged_callback env (Some u) =
           ([GetIdToken u False, GetIdTokenResult u, DatabaseOn (refreshTime_path u) u], Inr ())"
  using assms by (simp add: onAuthStateChanged_callback_def promise_defs)

lemma callback_no_user:
  "onAuthStateChanged_callback env None = ([SetAuthState st_out], Inr ())"
  by (simp add: onAuthStateChanged_callback_def promise_defs)

lemma callback_sets:
  assumes "SetAuthState s \<in> set (fst (onAuthStateChanged_callback env usr))"
  shows "(usr = None \<and> s = st_out) \<or>
         (\<exists>u t r. usr = Some u \<and> s = st_in u t \<and> getIdToken_outcome env u False = Inr t \<and>
            getIdTokenResult_outcome env u = Inr r \<and> truthy (lookup (claims r) hasura_claims_key))"
  using assms
  by (auto simp: onAuthStateChanged_callback_def promise_defs Let_def
      split: option.splits sum.splits if_splits)

lemma listener_sets:
  assumes "SetAuthState s \<in> set (fst (refresh_listener env u snap))"
  shows "\<exists>t. s = st_in u t \<and> getIdToken_outcome env u True = Inr t"
  using assms
  by (auto simp: refresh_listener_def promise_defs split: sum.splits if_splits)

lemma refresh_listener_split:
  "fst (refresh_listener env u snap) =
     refresh_listener_called env u snap @ refresh_listener_resumed env u snap"
  by (simp add: refresh_listener_def refresh_listener_called_def refresh_listener_resumed_def
      promise_defs split: sum.splits)

lemma listeners_on_member: "u \<in> set (listeners_on ls p) \<longleftrightarrow> (p, u) \<in> set ls"
  by (induction ls) (auto simp: listeners_on_def)

lemma run_listeners_member:
  assumes "x \<in> set (run_listeners env ls p snap)"
  shows "\<exists>u. (p, u) \<in> set ls \<and> x \<in> set (fst (refresh_listener env u snap))"
proof -
  from assms obtain u where u: "u \<in> set (listeners_on ls p)"
    and x: "x \<in> set (refresh_listener_called env u snap) \<or>
            x \<in> set (refresh_listener_resumed env u snap)"
    by (auto simp: run_listeners_def)
  from x have "x \<in> set (fst (refresh_listener env u snap))"
    by (auto simp: refresh_listener_split)
  with u show ?thesis by (auto simp: listeners_on_member)
qed

lemma run_listeners_sets:
  assumes "SetAuthState s \<in> set (run_listeners env ls p snap)"
  shows "\<exists>u t. (p, u) \<in> set ls \<and> s = st_in u t \<and> getIdToken_outcome env u True = Inr t"
proof -
  from run_listeners_member [OF assms] obtain u where reg: "(p, u) \<in> set ls"
    and m: "SetAuthState s \<in> set (fst (refresh_listener env u snap))"
    by blast
  from listener_sets [OF m] reg show ?thesis by blast
qed

lemma signIn_sets: "SetAuthState s \<notin> set (fst (signInWithGoogle env))"
  by (auto simp: signInWithGoogle_def promise_defs split: sum.splits)

lemma signOut_sets:
  "SetAuthState s \<in> set (fst (signOut env)) \<Longrightarrow> s = st_loading \<or> s = st_out"
  by (auto simp: signOut_def promise_defs split: sum.splits)

lemma apply_effects_authState:
  assumes "P (authState c)" and "\<And>s. SetAuthState s \<in> set xs \<Longrightarrow> P s"
  shows "P (authState (apply_effects c xs))"
  using assms unfolding apply_effects_def
proof (induction xs arbitrary: c)
  case Nil
  then show ?case by simp
next
  case (Cons x xs)
  have "P (authState (apply_effect c x))"
    using Cons.prems by (cases x) auto
  then show ?case using Cons by simp
qed


lemma apply_effects_append:
  "apply_effects c (xs @ ys) = apply_effects (apply_effects c xs) ys"
  by (simp add: apply_effects_def)

lemma apply_effects_listeners:
  assumes "set (listeners c) \<subseteq> S"
    and "\<And>p u. DatabaseOn p u \<in> set xs \<Longrightarrow> (p, u) \<in> S"
  shows "set (listeners (apply_effects c xs)) \<subseteq> S"
  using assms unfolding apply_effects_def
proof (induction xs arbitrary: c)
  case Nil
  then show ?case by simp
next
  case (Cons x xs)
  have "set (listeners (apply_effect c x)) \<subseteq> S"
    using Cons.prems by (cases x) auto
  then show ?case using Cons by simp
qed

lemma dispatch_sets_in:
  assumes "SetAuthState s \<in> set (dispatch env c ev)" and "status s = ''in''"
  shows "\<exists>u t. s = st_in u t \<and>
           ((ev = AuthStateChanged (Some u) \<and> getIdToken_outcome env u False = Inr t \<and>
             (\<exists>r. getIdTokenResult_outcome env u = Inr r \<and>
                  truthy (lookup (claims r) hasura_claims_key))) \<or>
            (\<exists>p d. ev = DatabaseValue p d \<and> (p, u) \<in> set (listeners c) \<and>
                  getIdToken_outcome env u True = Inr t))"
proof (cases ev)
  case (AuthStateChanged usr)
  with assms(1) have "SetAuthState s \<in> set (fst (onAuthStateChanged_callback env usr))"
    by simp
  from callback_sets [OF this] assms(2) AuthStateChanged show ?thesis
    by (auto simp: st_out_def)
next
  case (DatabaseValue p d)
  with assms(1) have "SetAuthState s \<in> set (run_listeners env (listeners c) p d)"
    by simp
  from run_listeners_sets [OF this] DatabaseValue show ?thesis by auto
next
  case ClickSignIn
  with assms(1) signIn_sets show ?thesis by simp
next
  case ClickSignOut
  with assms(1) have "s = st_loading \<or> s = st_out"
    by (simp add: signOut_sets)
  with assms(2) show ?thesis by (auto simp: st_loading_def st_out_def)
qed

lemma dispatch_sets_wf:
  assumes "SetAuthState s \<in> set (dispatch env c ev)"
  shows "wf_auth_state s"
  using dispatch_sets_in [OF assms] by (auto simp: wf_auth_state_def)

lemma step_wf:
  assumes "wf_auth_state (authState c)"
  shows "wf_auth_state (authState (step c ee))"
  unfolding step_def
  using assms dispatch_sets_wf
  by (rule apply_effects_authState [where P = wf_auth_state])

lemma run_wf:
  assumes "wf_auth_state (authState c)"
  shows "wf_auth_state (authState (run c evs))"
  using assms unfolding run_def
  by (induction evs arbitrary: c) (simp_all add: step_wf)

lemma initial_wf: "wf_auth_state (authState initial)"
  by (simp add: wf_auth_state_def initial_def st_loading_def)

lemma reachable_in:
  "status (authState (run initial evs)) = ''in'' \<Longrightarrow> \<exists>u t. authState (run initial evs) = st_in u t"
  using run_wf [OF initial_wf, of evs] by (simp add: wf_auth_state_def)

lemma callback_registers:
  assumes "DatabaseOn p u \<in> set (fst (onAuthStateChanged_callback env usr))"
  shows "p = refreshTime_path u"
  using assms
  by (auto simp: onAuthStateChanged_callback_def promise_defs Let_def
      split: option.splits sum.splits if_splits)

lemma listener_registers: "DatabaseOn p u' \<notin> set (fst (refresh_listener env u snap))"
  by (auto simp: refresh_listener_def promise_defs split: sum.splits if_splits)

lemma run_listeners_registers: "DatabaseOn q u \<notin> set (run_listeners env ls p snap)"
  using run_listeners_member [of "DatabaseOn q u" env ls p snap] listener_registers
  by blast

lemma dispatch_registers:
  assumes "DatabaseOn p u \<in> set (dispatch env c ev)"
  shows "p = refreshTime_path u"
proof (cases ev)
  case (AuthStateChanged usr)
  with assms callback_registers show ?thesis by simp
next
  case (DatabaseValue p d)
  with assms run_listeners_registers show ?thesis by simp
next
  case ClickSignIn
  with assms show ?thesis
    by (auto simp: signInWithGoogle_def promise_defs split: sum.splits)
next
  case ClickSignOut
  with assms show ?thesis
    by (auto simp: signOut_def promise_defs split: sum.splits)
qed

lemma step_listeners:
  assumes "set (listeners c) \<subseteq> registered_paths"
  shows "set (listeners (step c ee)) \<subseteq> registered_paths"
  unfolding step_def
  using assms
proof (rule apply_effects_listeners)
  fix p u
  assume "DatabaseOn p u \<in> set (dispatch (fst ee) c (snd ee))"
  from dispatch_registers [OF this] show "(p, u) \<in> registered_paths"
    by (simp add: registered_paths_def)
qed

lemma run_listeners_paths:
  assumes "set (listeners c) \<subseteq> registered_paths"
  shows "set (listeners (run c evs)) \<subseteq> registered_paths"
  using assms unfolding run_def
  by (induction evs arbitrary: c) (simp_all add: step_listeners)

lemma reachable_listeners:
  "(p, u) \<in> set (listeners (run initial evs)) \<Longrightarrow> p = refreshTime_path u"
  using run_listeners_paths [of initial evs]
  by (auto simp: initial_def registered_paths_def)


lemma step_callback_in:
  assumes "getIdToken_outcome env u False = Inr t"
    and "getIdTokenResult_outcome env u = Inr r"
    and "truthy (lookup (claims r) hasura_claims_key)"
  shows "authState (step c (env, AuthStateChanged (Some u))) = st_in u t"
  by (simp add: step_def apply_effects_def callback_with_claims [OF assms])

lemma step_callback_register:
  assumes "getIdToken_outcome env u False = Inr t"
    and "getIdTokenResult_outcome env u = Inr r"
    and "\<not> truthy (lookup (claims r) hasura_claims_key)"
  shows "authState (step c (env, AuthStateChanged (Some u))) = authState c"
    and "listeners (step c (env, AuthStateChanged (Some u))) = listeners c @ [(refreshTime_path u, u)]"
  by (simp_all add: step_def apply_effects_def callback_without_claims [OF assms])

lemma step_callback_out: "authState (step c (env, AuthStateChanged None)) = st_out"
  by (simp add: step_def apply_effects_def callback_no_user)

text \<open>
  What Auth does keep: it sets \<open>authState.status\<close> to \<open>'in'\<close> only together with a user
  and a token. On an auth-state change with a signed-in user whose calls resolve: if the id
  token result's claims hold a truthy value under \<open>https://hasura.io/jwt/claims\<close>, the
  state becomes \<open>{status: 'in', user, token}\<close> in that very callback; otherwise the
  callback sets no state and registers the refresh listener on
  \<open>metadata/{uid}/refreshTime\<close>. With no user the state becomes \<open>{status: 'out'}\<close>.
  Whatever the event, a state with status \<open>'in'\<close> is set either by that callback after
  the claims test, or by a registered refresh listener with the token of a forced
  refresh. Hence every state reachable from the initial one with status \<open>'in'\<close> has a
  user and a token, and every listener is registered on the path of its user.
\<close>

lemma Auth_in_only_with_user_and_token:
  "(getIdToken_outcome env u False = Inr t \<and> getIdTokenResult_outcome env u = Inr r \<and>
    truthy (lookup (claims r) ''https://hasura.io/jwt/claims'') \<longrightarrow>
      dispatch env c (AuthStateChanged (Some u)) =
        [GetIdToken u False, GetIdTokenResult u,
         SetAuthState \<lparr>status = ''in'', user = Some u, token = Some t\<rparr>] \<and>
      authState (step c (env, AuthStateChanged (Some u))) =
        \<lparr>status = ''in'', user = Some u, token = Some t\<rparr>) \<and>
   (getIdToken_outcome env u False = Inr t \<and> getIdTokenResult_outcome env u = Inr r \<and>
    \<not> truthy (lookup (claims r) ''https://hasura.io/jwt/claims'') \<longrightarrow>
      dispatch env c (AuthStateChanged (Some u)) =
        [GetIdToken u False, GetIdTokenResult u, DatabaseOn (refreshTime_path u) u] \<and>
      authState (step c (env, AuthStateChanged (Some u))) = authState c \<and>
      listeners (step c (env, AuthStateChanged (Some u))) =
        listeners c @ [(refreshTime_path u, u)]) \<and>
   authState (step c (env, AuthStateChanged None)) =
     \<lparr>status = ''out'', user = None, token = None\<rparr> \<and>
   (SetAuthState s \<in> set (dispatch env c ev) \<and> status s = ''in'' \<longrightarrow>
      (\<exists>v w. s = \<lparr>status = ''in'', user = Some v, token = Some w\<rparr> \<and>
         ((ev = AuthStateChanged (Some v) \<and> getIdToken_outcome env v False = Inr w \<and>
           (\<exists>r'. getIdTokenResult_outcome env v = Inr r' \<and>
                 truthy (lookup (claims r') ''https://hasura.io/jwt/claims''))) \<or>
          (\<exists>p d. ev = DatabaseValue p d \<and> (p, v) \<in> set (listeners c) \<and>
                 getIdToken_outcome env v True = Inr w)))) \<and>
   (status (authState (run initial evs)) = ''in'' \<longrightarrow>
      (\<exists>v w. authState (run initial evs) =
         \<lparr>status = ''in'', user = Some v, token = Some w\<rparr>)) \<and>
   ((q, x) \<in> set (listeners (run initial evs)) \<longrightarrow> q = ''metadata/'' @ uid x @ ''/refreshTime'')"
proof -
  have key: "hasura_claims_key = ''https://hasura.io/jwt/claims''"
    by (simp add: hasura_claims_key_def)
  have A: "getIdToken_outcome env u False = Inr t \<and> getIdTokenResult_outcome env u = Inr r \<and>
    truthy (lookup (claims r) ''https://hasura.io/jwt/claims'') \<longrightarrow>
      dispatch env c (AuthStateChanged (Some u)) =
        [GetIdToken u False, GetIdTokenResult u,
         SetAuthState \<lparr>status = ''in'', user = Some u, token = Some t\<rparr>] \<and>
      authState (step c (env, AuthStateChanged (Some u))) =
        \<lparr>status = ''in'', user = Some u, token = Some t\<rparr>"
    using callback_with_claims [of env u t r] step_callback_in [of env u t r c]
    by (simp add: key st_in_def)
  have B: "getIdToken_outcome env u False = Inr t \<and> getIdTokenResult_outcome env u = Inr r \<and>
    \<not> truthy (lookup (claims r) ''https://hasura.io/jwt/claims'') \<longrightarrow>
      dispatch env c (AuthStateChanged (Some u)) =
        [GetIdToken u False, GetIdTokenResult u, DatabaseOn (refreshTime_path u) u] \<and>
      authState (step c (env, AuthStateChanged (Some u))) = authState c \<and>
      listeners (step c (env, AuthStateChanged (Some u))) =
        listeners c @ [(refreshTime_path u, u)]"
    using callback_without_claims [of env u t r] step_callback_register [of env u t r c]
    by (simp add: key)
  have C: "authState (step c (env, AuthStateChanged None)) =
     \<lparr>status = ''out'', user = None, token = None\<rparr>"
    by (simp add: step_callback_out st_out_def)
  have D: "SetAuthState s \<in> set (dispatch env c ev) \<and> status s = ''in'' \<longrightarrow>
      (\<exists>v w. s = \<lparr>status = ''in'', user = Some v, token = Some w\<rparr> \<and>
         ((ev = AuthStateChanged (Some v) \<and> getIdToken_outcome env v False = Inr w \<and>
           (\<exists>r'. getIdTokenResult_outcome env v = Inr r' \<and>
                 truthy (lookup (claims r') ''https://hasura.io/jwt/claims''))) \<or>
          (\<exists>p d. ev = DatabaseValue p d \<and> (p, v) \<in> set (listeners c) \<and>
                 getIdToken_outcome env v True = Inr w)))"
    using dispatch_sets_in [of s env c ev] by (simp add: key st_in_def)
  have E: "status (authState (run initial evs)) = ''in'' \<longrightarrow>
      (\<exists>v w. authState (run initial evs) =
         \<lparr>status = ''in'', user = Some v, token = Some w\<rparr>)"
    using reachable_in [of evs] by (simp add: st_in_def)
  have F: "(q, x) \<in> set (listeners (run initial evs)) \<longrightarrow>
      q = ''metadata/'' @ uid x @ ''/refreshTime''"
    using reachable_listeners [of q x evs] by (simp add: refreshTime_path_def)
  from A B C D E F show ?thesis by blast
qed

lemmas auth_eval =
  run_def step_def apply_effects_def onAuthStateChanged_callback_def refresh_listener_def
  run_listeners_def listeners_on_def refresh_listener_called_def refresh_listener_resumed_def
  signInWithGoogle_def signOut_def promise_defs lookup_def dataSnapshot_def
  hasura_claims_key_def refreshTime_path_def st_in_def st_out_def st_loading_def initial_def
  alice_def env_claims_def env_plain_def env_offline_def hasura_token_def plain_token_def

lemma Auth_in_only_with_user_and_token_witness:
  "authState (step initial (env_claims, AuthStateChanged (Some alice))) =
     \<lparr>status = ''in'', user = Some alice, token = Some ''jwt-1''\<rparr> \<and>
   authState (step initial (env_plain, AuthStateChanged (Some alice))) = authState initial \<and>
   listeners (step initial (env_plain, AuthStateChanged (Some alice))) =
     [(''metadata/a1/refreshTime'', alice)] \<and>
   SetAuthState \<lparr>status = ''in'', user = Some alice, token = Some ''jwt-2''\<rparr> \<in>
     set (dispatch env_plain (step initial (env_plain, AuthStateChanged (Some alice)))
            (DatabaseValue ''metadata/a1/refreshTime'' (dataSnapshot (Num 1554000000000)))) \<and>
   (\<exists>v w. \<lparr>status = ''in'', user = Some alice, token = Some ''jwt-2''\<rparr> =
            \<lparr>status = ''in'', user = Some v, token = Some w\<rparr> \<and>
      ((DatabaseValue ''metadata/a1/refreshTime'' (dataSnapshot (Num 1554000000000)) =
          AuthStateChanged (Some v) \<and>
        getIdToken_outcome env_plain v False = Inr w \<and>
        (\<exists>r'. getIdTokenResult_outcome env_plain v = Inr r' \<and>
              truthy (lookup (claims r') ''https://hasura.io/jwt/claims''))) \<or>
       (\<exists>p d. DatabaseValue ''metadata/a1/refreshTime'' (dataSnapshot (Num 1554000000000)) =
               DatabaseValue p d \<and>
             (p, v) \<in> set (listeners (step initial (env_plain, AuthStateChanged (Some alice)))) \<and>
             getIdToken_outcome env_plain v True = Inr w))) \<and>
   status (authState (run initial
     [(env_plain, AuthStateChanged (Some alice)),
      (env_plain, DatabaseValue ''metadata/a1/refreshTime'' (dataSnapshot (Num 1554000000000)))])) = ''in'' \<and>
   (\<exists>v w. authState (run initial
     [(env_plain, AuthStateChanged (Some alice)),
      (env_plain, DatabaseValue ''metadata/a1/refreshTime'' (dataSnapshot (Num 1554000000000)))]) =
       \<lparr>status = ''in'', user = Some v, token = Some w\<rparr>)"
proof -
  let ?c1 = "step initial (env_plain, AuthStateChanged (Some alice))"
  let ?ev = "DatabaseValue ''metadata/a1/refreshTime'' (dataSnapshot (Num 1554000000000))"
  let ?evs = "[(env_plain, AuthStateChanged (Some alice)), (env_plain, ?ev)]"
  let ?s = "\<lparr>status = ''in'', user = Some alice, token = Some ''jwt-2''\<rparr>"
  have h1: "getIdToken_outcome env_claims alice False = Inr ''jwt-1'' \<and>
            getIdTokenResult_outcome env_claims alice = Inr hasura_token \<and>
            truthy (lookup (claims hasura_token) ''https://hasura.io/jwt/claims'')"
    by (simp add: auth_eval)
  have h2: "getIdToken_outcome env_plain alice False = Inr ''jwt-1'' \<and>
            getIdTokenResult_outcome env_plain alice = Inr plain_token \<and>
            \<not> truthy (lookup (claims plain_token) ''https://hasura.io/jwt/claims'')"
    by (simp add: auth_eval)
  have h3: "SetAuthState ?s \<in> set (dispatch env_plain ?c1 ?ev) \<and> status ?s = ''in''"
    by (simp add: auth_eval)
  have h4: "status (authState (run initial ?evs)) = ''in''"
    by (simp add: auth_eval)
  have h5: "getIdToken_outcome env_plain alice True = Inr ''jwt-2''"
    by (simp add: auth_eval)
  note T = Auth_in_only_with_user_and_token
  have w1: "authState (step initial (env_claims, AuthStateChanged (Some alice))) =
     \<lparr>status = ''in'', user = Some alice, token = Some ''jwt-1''\<rparr>"
    using T [where env = env_claims and u = alice and t = "''jwt-1''" and r = hasura_token
        and c = initial, THEN conjunct1, THEN mp, OF h1]
    by (rule conjunct2)
  have w2: "authState ?c1 = authState initial \<and>
      listeners ?c1 = listeners initial @ [(refreshTime_path alice, alice)]"
    using T [where env = env_plain and u = alice and t = "''jwt-1''" and r = plain_token
        and c = initial, THEN conjunct2, THEN conjunct1, THEN mp, OF h2]
    by (rule conjunct2)
  have w2a: "authState ?c1 = authState initial"
    using w2 by (rule conjunct1)
  have w3: "listeners ?c1 = [(''metadata/a1/refreshTime'', alice)]"
    using w2 [THEN conjunct2] by (simp add: initial_def refreshTime_path_def alice_def)
  have w4: "\<exists>v w. authState (run initial ?evs) =
       \<lparr>status = ''in'', user = Some v, token = Some w\<rparr>"
    using T [where evs = ?evs, THEN conjunct2, THEN conjunct2, THEN conjunct2,
        THEN conjunct2, THEN conjunct1, THEN mp, OF h4] .
  have w5: "\<exists>v w. ?s = \<lparr>status = ''in'', user = Some v, token = Some w\<rparr> \<and>
      ((?ev = AuthStateChanged (Some v) \<and> getIdToken_outcome env_plain v False = Inr w \<and>
        (\<exists>r'. getIdTokenResult_outcome env_plain v = Inr r' \<and>
              truthy (lookup (claims r') ''https://hasura.io/jwt/claims''))) \<or>
       (\<exists>p d. ?ev = DatabaseValue p d \<and> (p, v) \<in> set (listeners ?c1) \<and>
              getIdToken_outcome env_plain v True = Inr w))"
    using T [where env = env_plain and c = ?c1 and s = ?s and ev = ?ev,
        THEN conjunct2, THEN conjunct2, THEN conjunct2, THEN conjunct1, THEN mp, OF h3] .
  have h3a: "SetAuthState ?s \<in> set (dispatch env_plain ?c1 ?ev)"
    using h3 by (rule conjunct1)
  show ?thesis
    using w1 w2a w3 h3a w5 h4 w4 by (intro conjI)
qed

subsection \<open>Tokens and the Hasura claims\<close>

text \<open>
  In the callback the stored token is the one whose claims were tested, as long as
  \<open>getIdToken\<close> and \<open>getIdTokenResult\<close> speak of the same token.
\<close>

lemma callback_in_carries_claims:
  assumes "getIdToken_outcome env u False = Inr t"
    and "getIdTokenResult_outcome env u = Inr r"
    and "claims r = decode t"
    and "SetAuthState s \<in> set (dispatch env c (AuthStateChanged (Some u)))"
  shows "s = st_in u t \<and> carries_hasura_claims decode s"
proof -
  from assms(4) have "SetAuthState s \<in> set (fst (onAuthStateChanged_callback env (Some u)))"
    by simp
  from callback_sets [OF this] assms(1-3) show ?thesis
    by (auto simp: carries_hasura_claims_def st_in_def)
qed

text \<open>
  The listener stores whatever token the forced refresh returns, and it does so on a
  snapshot that holds no data as well.
\<close>

lemma listener_stores_untested_token:
  assumes "getIdToken_outcome env u True = Inr t"
  shows "authState (step \<lparr>authState = a, listeners = [(p, u)], console = l\<rparr>
            (env, DatabaseValue p (dataSnapshot Null))) = st_in u t"
    and "carries_hasura_claims decode (st_in u t) \<longleftrightarrow>
           truthy (lookup (decode t) hasura_claims_key)"
  using assms
  by (simp_all add: step_def apply_effects_def run_listeners_def listeners_on_def
      refresh_listener_called_def refresh_listener_resumed_def dataSnapshot_def lookup_def
      promise_defs carries_hasura_claims_def st_in_def)

text \<open>
  Claim C1. Auth should set \<open>authState.status\<close> to \<open>'in'\<close> only together with a user and
  a JWT that carries the Hasura custom claims. The code does not keep this. For a user
  created a moment ago the id token carries no Hasura claims, so the callback sets no
  state and registers the refresh listener. The database hands the listener the current
  value at once: a snapshot without data, \<open>refreshTime\<close> not being written yet. The guard
  reads \<open>data.exists\<close> without calling it and does not return (calling it would answer
  \<open>false\<close>), the forced refresh returns a token that still carries no claims, and the
  listener stores it with status \<open>'in'\<close>.
\<close>

theorem new_user_in_without_claims:
  "getIdToken_outcome env_new_user alice False = Inr ''jwt-without-claims'' \<and>
   getIdTokenResult_outcome env_new_user alice =
     Inr \<lparr>claims = sample_claims ''jwt-without-claims''\<rparr> \<and>
   \<not> truthy (lookup (sample_claims ''jwt-without-claims'') ''https://hasura.io/jwt/claims'') \<and>
   run initial [(env_new_user, AuthStateChanged (Some alice))] =
     \<lparr>authState = \<lparr>status = ''loading'', user = None, token = None\<rparr>,
      listeners = [(''metadata/a1/refreshTime'', alice)], console = []\<rparr> \<and>
   get_prop (dataSnapshot Null) ''exists'' = Inr (Method (Bool False)) \<and>
   getIdToken_outcome env_new_user alice True = Inr ''jwt-without-claims'' \<and>
   dispatch env_new_user (run initial [(env_new_user, AuthStateChanged (Some alice))])
       (DatabaseValue ''metadata/a1/refreshTime'' (dataSnapshot Null)) =
     [GetIdToken alice True,
      SetAuthState \<lparr>status = ''in'', user = Some alice, token = Some ''jwt-without-claims''\<rparr>] \<and>
   authState (run initial
       [(env_new_user, AuthStateChanged (Some alice)),
        (env_new_user, DatabaseValue ''metadata/a1/refreshTime'' (dataSnapshot Null))]) =
     \<lparr>status = ''in'', user = Some alice, token = Some ''jwt-without-claims''\<rparr> \<and>
   \<not> carries_hasura_claims sample_claims (authState (run initial
       [(env_new_user, AuthStateChanged (Some alice)),
        (env_new_user, DatabaseValue ''metadata/a1/refreshTime'' (dataSnapshot Null))]))"
proof -
  let ?e1 = "(env_new_user, AuthStateChanged (Some alice))"
  let ?e2 = "(env_new_user, DatabaseValue ''metadata/a1/refreshTime'' (dataSnapshot Null))"
  have A: "getIdToken_outcome env_new_user alice False = Inr ''jwt-without-claims''"
    by (simp add: env_new_user_def)
  have B: "getIdTokenResult_outcome env_new_user alice =
     Inr \<lparr>claims = sample_claims ''jwt-without-claims''\<rparr>"
    by (simp add: env_new_user_def)
  have C: "\<not> truthy (lookup (sample_claims ''jwt-without-claims'') ''https://hasura.io/jwt/claims'')"
    by (simp add: sample_claims_def plain_token_def lookup_def)
  have D: "run initial [?e1] =
     \<lparr>authState = \<lparr>status = ''loading'', user = None, token = None\<rparr>,
      listeners = [(''metadata/a1/refreshTime'', alice)], console = []\<rparr>"
    by (simp add: auth_eval env_new_user_def sample_claims_def)
  have E: "get_prop (dataSnapshot Null) ''exists'' = Inr (Method (Bool False))"
    by (simp add: dataSnapshot_def lookup_def)
  have F: "getIdToken_outcome env_new_user alice True = Inr ''jwt-without-claims''"
    by (simp add: env_new_user_def)
  have G: "dispatch env_new_user (run initial [?e1])
       (DatabaseValue ''metadata/a1/refreshTime'' (dataSnapshot Null)) =
     [GetIdToken alice True,
      SetAuthState \<lparr>status = ''in'', user = Some alice, token = Some ''jwt-without-claims''\<rparr>]"
    by (simp only: D) (simp add: auth_eval env_new_user_def)
  have H: "authState (run initial [?e1, ?e2]) =
     \<lparr>status = ''in'', user = Some alice, token = Some ''jwt-without-claims''\<rparr>"
    by (simp add: auth_eval env_new_user_def sample_claims_def)
  have I: "\<not> carries_hasura_claims sample_claims (authState (run initial [?e1, ?e2]))"
    using C by (simp only: H) (simp add: carries_hasura_claims_def hasura_claims_key_def)
  from A B C D E F G H I show ?thesis by (intro conjI)
qed

subsection \<open>The refresh listener\<close>

lemma snapshot_exists_prop:
  "get_prop (dataSnapshot v) ''exists'' = Inr (Method (Bool (v \<noteq> Null)))"
  by (simp add: dataSnapshot_def lookup_def)

lemma listener_on_snapshot:
  "refresh_listener env u (dataSnapshot v) =
     (GetIdToken u True #
        (case getIdToken_outcome env u True of
           Inl e \<Rightarrow> []
         | Inr t \<Rightarrow> [SetAuthState (st_in u t)]),
      (case getIdToken_outcome env u True of Inl e \<Rightarrow> Inl e | Inr t \<Rightarrow> Inr ()))"
  by (simp add: refresh_listener_def snapshot_exists_prop promise_defs split: sum.splits)

lemma listener_without_exists: "refresh_listener env u (Obj []) = ([], Inr ())"
  by (simp add: refresh_listener_def lookup_def promise_defs)

lemma listener_refreshes:
  assumes "getIdToken_outcome env u True = Inr t"
  shows "refresh_listener env u (dataSnapshot v) =
           ([GetIdToken u True, SetAuthState (st_in u t)], Inr ())"
  by (simp add: listener_on_snapshot assms)

lemma called_on_snapshot:
  "refresh_listener_called env u (dataSnapshot v) = [GetIdToken u True]"
  by (simp add: refresh_listener_called_def snapshot_exists_prop getIdToken_def)

lemma resumed_on_snapshot:
  "refresh_listener_resumed env u (dataSnapshot v) =
     (case getIdToken_outcome env u True of
        Inl e \<Rightarrow> []
      | Inr t \<Rightarrow> [SetAuthState (st_in u t)])"
  by (simp add: refresh_listener_resumed_def snapshot_exists_prop promise_defs
      split: sum.splits)

lemma concat_map_split:
  assumes "u \<in> set us"
  shows "\<exists>xs ys. concat (map f us) = xs @ f u @ ys"
proof -
  from split_list [OF assms] obtain as bs where "us = as @ u # bs" by blast
  then have "concat (map f us) = concat (map f as) @ f u @ concat (map f bs)"
    by simp
  then show ?thesis by blast
qed

lemma run_listeners_contains:
  assumes "(p, u) \<in> set ls" and "getIdToken_outcome env u True = Inr t"
  shows "\<exists>xs ys zs. run_listeners env ls p (dataSnapshot v) =
           xs @ GetIdToken u True # ys @ SetAuthState (st_in u t) # zs"
proof -
  let ?us = "listeners_on ls p"
  from assms(1) have u: "u \<in> set ?us"
    by (simp add: listeners_on_member)
  from concat_map_split [OF u, of "\<lambda>u. refresh_listener_called env u (dataSnapshot v)"]
  obtain a1 a2 where
    A: "concat (map (\<lambda>u. refresh_listener_called env u (dataSnapshot v)) ?us) =
          a1 @ [GetIdToken u True] @ a2"
    by (auto simp: called_on_snapshot)
  from concat_map_split [OF u, of "\<lambda>u. refresh_listener_resumed env u (dataSnapshot v)"]
  obtain b1 b2 where
    B: "concat (map (\<lambda>u. refresh_listener_resumed env u (dataSnapshot v)) ?us) =
          b1 @ [SetAuthState (st_in u t)] @ b2"
    by (auto simp: resumed_on_snapshot assms(2))
  have "run_listeners env ls p (dataSnapshot v) =
      a1 @ GetIdToken u True # (a2 @ b1) @ SetAuthState (st_in u t) # b2"
    by (simp add: run_listeners_def A B)
  then show ?thesis by blast
qed

text \<open>
  Two listeners on one path: both calls of \<open>getIdToken(true)\<close> come before either
  state is set.
\<close>

lemma two_listeners_interleave:
  assumes "getIdToken_outcome env u True = Inr t" and "getIdToken_outcome env w True = Inr t'"
  shows "run_listeners env [(p, u), (p, w)] p (dataSnapshot v) =
           [GetIdToken u True, GetIdToken w True,
            SetAuthState (st_in u t), SetAuthState (st_in w t')]"
  by (simp add: run_listeners_def listeners_on_def called_on_snapshot resumed_on_snapshot assms)

lemma apply_effects_keeps_listeners:
  assumes "\<And>p u. DatabaseOn p u \<notin> set xs"
  shows "listeners (apply_effects c xs) = listeners c"
  using assms unfolding apply_effects_def
proof (induction xs arbitrary: c)
  case Nil
  then show ?case by simp
next
  case (Cons x xs)
  have "listeners (apply_effect c x) = listeners c"
    using Cons.prems by (cases x) auto
  moreover have "listeners (foldl apply_effect (apply_effect c x) xs) =
      listeners (apply_effect c x)"
    using Cons.prems by (intro Cons.IH) auto
  ultimately show ?case by simp
qed

lemma value_event_keeps_listeners:
  "listeners (step c (env, DatabaseValue p d)) = listeners c"
  by (simp add: step_def apply_effects_keeps_listeners run_listeners_registers)

lemma single_listener_step:
  assumes "listeners c = [(p, u)]"
  shows "authState (step c (env, DatabaseValue p (dataSnapshot v))) =
           (case getIdToken_outcome env u True of
              Inl e \<Rightarrow> authState c
            | Inr t \<Rightarrow> st_in u t)"
  by (simp add: step_def apply_effects_def assms run_listeners_def listeners_on_def
      called_on_snapshot resumed_on_snapshot split: sum.splits)


text \<open>
  Claim C3. When the id token of a signed-in user does not hold the Hasura claims,
  the callback registers a listener on \<open>metadata/{uid}/refreshTime\<close>. On a value event
  whose snapshot exists (holds a value other than \<open>null\<close>), that listener calls
  \<open>getIdToken(true)\<close> and, the refresh resolving with a token, sets the state to
  \<open>{status: 'in', user, token}\<close> with that token: among the effects of the event the
  call comes before the set, whatever other listeners of the path do in between. When
  it is the only listener, the state after the event is that one. The event leaves the
  listeners as they were, so the next value event does the same again.
\<close>

theorem refresh_loop_on_refreshTime:
  "(getIdToken_outcome env0 u False = Inr t0 \<and> getIdTokenResult_outcome env0 u = Inr r \<and>
    \<not> truthy (lookup (claims r) ''https://hasura.io/jwt/claims'') \<longrightarrow>
      listeners (step c0 (env0, AuthStateChanged (Some u))) =
        listeners c0 @ [(''metadata/'' @ uid u @ ''/refreshTime'', u)]) \<and>
   (v \<noteq> Null \<and> getIdToken_outcome env u True = Inr t \<longrightarrow>
      refresh_listener env u (dataSnapshot v) =
        ([GetIdToken u True,
          SetAuthState \<lparr>status = ''in'', user = Some u, token = Some t\<rparr>], Inr ())) \<and>
   (v \<noteq> Null \<and> getIdToken_outcome env u True = Inr t \<and> (p, u) \<in> set (listeners c) \<longrightarrow>
      (\<exists>xs ys zs. dispatch env c (DatabaseValue p (dataSnapshot v)) =
         xs @ GetIdToken u True # ys @
           SetAuthState \<lparr>status = ''in'', user = Some u, token = Some t\<rparr> # zs)) \<and>
   (v \<noteq> Null \<and> getIdToken_outcome env u True = Inr t \<and> listeners c = [(p, u)] \<longrightarrow>
      authState (step c (env, DatabaseValue p (dataSnapshot v))) =
        \<lparr>status = ''in'', user = Some u, token = Some t\<rparr>) \<and>
   listeners (step c (env, DatabaseValue p d)) = listeners c"
proof -
  have A: "getIdToken_outcome env0 u False = Inr t0 \<and> getIdTokenResult_outcome env0 u = Inr r \<and>
    \<not> truthy (lookup (claims r) ''https://hasura.io/jwt/claims'') \<longrightarrow>
      listeners (step c0 (env0, AuthStateChanged (Some u))) =
        listeners c0 @ [(''metadata/'' @ uid u @ ''/refreshTime'', u)]"
    using step_callback_register(2) [of env0 u t0 r c0]
    by (simp add: hasura_claims_key_def refreshTime_path_def)
  have B: "v \<noteq> Null \<and> getIdToken_outcome env u True = Inr t \<longrightarrow>
      refresh_listener env u (dataSnapshot v) =
        ([GetIdToken u True,
          SetAuthState \<lparr>status = ''in'', user = Some u, token = Some t\<rparr>], Inr ())"
    using listener_refreshes [of env u t v] by (simp add: st_in_def)
  have C: "v \<noteq> Null \<and> getIdToken_outcome env u True = Inr t \<and> (p, u) \<in> set (listeners c) \<longrightarrow>
      (\<exists>xs ys zs. dispatch env c (DatabaseValue p (dataSnapshot v)) =
         xs @ GetIdToken u True # ys @
           SetAuthState \<lparr>status = ''in'', user = Some u, token = Some t\<rparr> # zs)"
  proof (intro impI, elim conjE)
    assume tk: "getIdToken_outcome env u True = Inr t" and reg: "(p, u) \<in> set (listeners c)"
    from run_listeners_contains [OF reg tk, of v]
    show "\<exists>xs ys zs. dispatch env c (DatabaseValue p (dataSnapshot v)) =
         xs @ GetIdToken u True # ys @
           SetAuthState \<lparr>status = ''in'', user = Some u, token = Some t\<rparr> # zs"
      by (simp add: st_in_def)
  qed
  have D: "v \<noteq> Null \<and> getIdToken_outcome env u True = Inr t \<and> listeners c = [(p, u)] \<longrightarrow>
      authState (step c (env, DatabaseValue p (dataSnapshot v))) =
        \<lparr>status = ''in'', user = Some u, token = Some t\<rparr>"
    using single_listener_step [of c p u env v] by (simp add: st_in_def)
  have E: "listeners (step c (env, DatabaseValue p d)) = listeners c"
    by (rule value_event_keeps_listeners)
  from A B C D E show ?thesis by (intro conjI)
qed

theorem refresh_loop_on_refreshTime_witness:
  "listeners (step initial (env_plain, AuthStateChanged (Some alice))) =
     [(''metadata/a1/refreshTime'', alice)] \<and>
   refresh_listener env_plain alice (dataSnapshot (Num 1554000000000)) =
     ([GetIdToken alice True,
       SetAuthState \<lparr>status = ''in'', user = Some alice, token = Some ''jwt-2''\<rparr>], Inr ()) \<and>
   authState (step (step initial (env_plain, AuthStateChanged (Some alice)))
       (env_plain, DatabaseValue ''metadata/a1/refreshTime'' (dataSnapshot (Num 1554000000000)))) =
     \<lparr>status = ''in'', user = Some alice, token = Some ''jwt-2''\<rparr> \<and>
   (\<exists>xs ys zs. dispatch env_plain (step initial (env_plain, AuthStateChanged (Some alice)))
       (DatabaseValue ''metadata/a1/refreshTime'' (dataSnapshot (Num 1554000000000))) =
     xs @ GetIdToken alice True # ys @
       SetAuthState \<lparr>status = ''in'', user = Some alice, token = Some ''jwt-2''\<rparr> # zs)"
proof -
  let ?c1 = "step initial (env_plain, AuthStateChanged (Some alice))"
  let ?v = "Num 1554000000000"
  let ?p = "''metadata/a1/refreshTime''"
  note T = refresh_loop_on_refreshTime
  have h1: "getIdToken_outcome env_plain alice False = Inr ''jwt-1'' \<and>
            getIdTokenResult_outcome env_plain alice = Inr plain_token \<and>
            \<not> truthy (lookup (claims plain_token) ''https://hasura.io/jwt/claims'')"
    by (simp add: auth_eval)
  have w1: "listeners ?c1 = listeners initial @ [(''metadata/'' @ uid alice @ ''/refreshTime'', alice)]"
    using T [where ?env0.0 = env_plain and u = alice and ?t0.0 = "''jwt-1''" and r = plain_token
        and ?c0.0 = initial, THEN conjunct1, THEN mp, OF h1] .
  then have w1': "listeners ?c1 = [(?p, alice)]"
    by (simp add: initial_def alice_def)
  have h2: "?v \<noteq> Null \<and> getIdToken_outcome env_plain alice True = Inr ''jwt-2''"
    by (simp add: auth_eval)
  have w2: "refresh_listener env_plain alice (dataSnapshot ?v) =
     ([GetIdToken alice True,
       SetAuthState \<lparr>status = ''in'', user = Some alice, token = Some ''jwt-2''\<rparr>], Inr ())"
    using T [where env = env_plain and u = alice and v = ?v and t = "''jwt-2''",
        THEN conjunct2, THEN conjunct1, THEN mp, OF h2] .
  have h3: "?v \<noteq> Null \<and> getIdToken_outcome env_plain alice True = Inr ''jwt-2'' \<and>
      (?p, alice) \<in> set (listeners ?c1)"
    using h2 w1' by simp
  have w3: "\<exists>xs ys zs. dispatch env_plain ?c1 (DatabaseValue ?p (dataSnapshot ?v)) =
     xs @ GetIdToken alice True # ys @
       SetAuthState \<lparr>status = ''in'', user = Some alice, token = Some ''jwt-2''\<rparr> # zs"
    using T [where env = env_plain and u = alice and v = ?v and t = "''jwt-2''" and c = ?c1
        and p = ?p, THEN conjunct2, THEN conjunct2, THEN conjunct1, THEN mp, OF h3] .
  have h4: "?v \<noteq> Null \<and> getIdToken_outcome env_plain alice True = Inr ''jwt-2'' \<and>
      listeners ?c1 = [(?p, alice)]"
    using h2 w1' by simp
  have w4: "authState (step ?c1 (env_plain, DatabaseValue ?p (dataSnapshot ?v))) =
     \<lparr>status = ''in'', user = Some alice, token = Some ''jwt-2''\<rparr>"
    using T [where env = env_plain and u = alice and v = ?v and t = "''jwt-2''" and c = ?c1
        and p = ?p, THEN conjunct2, THEN conjunct2, THEN conjunct2, THEN conjunct1, THEN mp,
        OF h4] .
  show ?thesis using w1' w2 w4 w3 by (intro conjI)
qed

text \<open>
  Claim C8. The guard \<open>if (!data.exists) return\<close> of the refresh listener reads the
  property \<open>exists\<close> of the snapshot without calling it. On a snapshot of the realtime
  database that property is a method, and a function is truthy, so the guard never
  returns: whatever value the snapshot holds, \<open>null\<close> (no data) included, the listener
  calls \<open>getIdToken(true)\<close> and, when the refresh resolves, sets the state to
  \<open>{status: 'in', user, token}\<close>. The guard does return for a value that has no
  \<open>exists\<close> property.
\<close>

theorem exists_guard_never_fires:
  "get_prop (dataSnapshot v) ''exists'' = Inr (Method (Bool (v \<noteq> Null))) \<and>
   truthy (Method (Bool (v \<noteq> Null))) \<and>
   refresh_listener env u (dataSnapshot v) =
     (GetIdToken u True #
        (case getIdToken_outcome env u True of
           Inl e \<Rightarrow> []
         | Inr t \<Rightarrow> [SetAuthState \<lparr>status = ''in'', user = Some u, token = Some t\<rparr>]),
      (case getIdToken_outcome env u True of Inl e \<Rightarrow> Inl e | Inr t \<Rightarrow> Inr ())) \<and>
   refresh_listener env u (dataSnapshot Null) = refresh_listener env u (dataSnapshot v) \<and>
   (listeners c = [(p, u)] \<longrightarrow>
      authState (step c (env, DatabaseValue p (dataSnapshot Null))) =
        (case getIdToken_outcome env u True of
           Inl e \<Rightarrow> authState c
         | Inr t \<Rightarrow> \<lparr>status = ''in'', user = Some u, token = Some t\<rparr>)) \<and>
   refresh_listener env u (Obj []) = ([], Inr ())"
proof -
  have A: "get_prop (dataSnapshot v) ''exists'' = Inr (Method (Bool (v \<noteq> Null)))"
    by (rule snapshot_exists_prop)
  have B: "truthy (Method (Bool (v \<noteq> Null)))"
    by simp
  have C: "refresh_listener env u (dataSnapshot v) =
     (GetIdToken u True #
        (case getIdToken_outcome env u True of
           Inl e \<Rightarrow> []
         | Inr t \<Rightarrow> [SetAuthState \<lparr>status = ''in'', user = Some u, token = Some t\<rparr>]),
      (case getIdToken_outcome env u True of Inl e \<Rightarrow> Inl e | Inr t \<Rightarrow> Inr ()))"
    by (simp add: listener_on_snapshot st_in_def split: sum.splits)
  have D: "refresh_listener env u (dataSnapshot Null) = refresh_listener env u (dataSnapshot v)"
    by (simp add: listener_on_snapshot)
  have E: "listeners c = [(p, u)] \<longrightarrow>
      authState (step c (env, DatabaseValue p (dataSnapshot Null))) =
        (case getIdToken_outcome env u True of
           Inl e \<Rightarrow> authState c
         | Inr t \<Rightarrow> \<lparr>status = ''in'', user = Some u, token = Some t\<rparr>)"
    using single_listener_step [of c p u env Null] by (simp add: st_in_def split: sum.splits)
  have F: "refresh_listener env u (Obj []) = ([], Inr ())"
    by (rule listener_without_exists)
  from A B C D E F show ?thesis by (intro conjI)
qed

theorem exists_guard_never_fires_witness:
  "listeners (step initial (env_plain, AuthStateChanged (Some alice))) =
     [(''metadata/a1/refreshTime'', alice)] \<and>
   get_prop (dataSnapshot Null) ''exists'' = Inr (Method (Bool False)) \<and>
   authState (step (step initial (env_plain, AuthStateChanged (Some alice)))
       (env_plain, DatabaseValue ''metadata/a1/refreshTime'' (dataSnapshot Null))) =
     \<lparr>status = ''in'', user = Some alice, token = Some ''jwt-2''\<rparr>"
proof -
  let ?c1 = "step initial (env_plain, AuthStateChanged (Some alice))"
  let ?p = "''metadata/a1/refreshTime''"
  note T = exists_guard_never_fires
    [where v = Null and env = env_plain and u = alice and c = ?c1 and p = ?p]
  have h: "listeners ?c1 = [(?p, alice)]"
    by (simp add: auth_eval)
  have w1: "get_prop (dataSnapshot Null) ''exists'' = Inr (Method (Bool False))"
    using T [THEN conjunct1] by simp
  have "authState (step ?c1 (env_plain, DatabaseValue ?p (dataSnapshot Null))) =
        (case getIdToken_outcome env_plain alice True of
           Inl e \<Rightarrow> authState ?c1
         | Inr t \<Rightarrow> \<lparr>status = ''in'', user = Some alice, token = Some t\<rparr>)"
    using T [THEN conjunct2, THEN conjunct2, THEN conjunct2, THEN conjunct2, THEN conjunct1,
        THEN mp, OF h] .
  also have "getIdToken_outcome env_plain alice True = Inr ''jwt-2''"
    by (simp add: env_plain_def)
  finally have w2: "authState (step ?c1 (env_plain, DatabaseValue ?p (dataSnapshot Null))) =
     \<lparr>status = ''in'', user = Some alice, token = Some ''jwt-2''\<rparr>"
    by simp
  show ?thesis using h w1 w2 by (intro conjI)
qed


subsection \<open>Signing out\<close>

lemma signOut_trace:
  "signOut env =
     ([SetAuthState st_loading, FirebaseSignOut] @
        (case signOut_outcome env of
           Inl e \<Rightarrow> [ConsoleLog e]
         | Inr x \<Rightarrow> [SetAuthState st_out]),
      Inr ())"
  by (simp add: signOut_def promise_defs split: sum.splits)

lemma signOut_resolved:
  assumes "signOut_outcome env = Inr ()"
  shows "authState (step c (env, ClickSignOut)) = st_out"
  by (simp add: step_def apply_effects_def signOut_trace assms)

lemma signOut_rejected:
  assumes "signOut_outcome env = Inl e"
  shows "authState (step c (env, ClickSignOut)) = st_loading"
    and "console (step c (env, ClickSignOut)) = console c @ [e]"
  by (simp_all add: step_def apply_effects_def signOut_trace assms)

lemma Auth_loading_renders_nothing:
  "Auth_render st_loading = Inr (Elem ''div'' [(''className'', ''auth'')] [Nothing])"
  by (simp add: Auth_render_def Auth_content_def st_loading_def)

text \<open>
  Claim C10. \<open>signOut\<close> changes the state in two steps: it sets \<open>{status: 'loading'}\<close>,
  then calls Firebase's sign-out, and only when that resolves sets \<open>{status: 'out'}\<close>.
  When the call rejects, the error is logged, the promise of \<open>signOut\<close> still resolves,
  and the state stays \<open>{status: 'loading'}\<close>, under which Auth renders no content; the
  state the user had before (status \<open>'in'\<close>) is not put back.
\<close>

theorem signOut_leaves_loading_on_failure:
  "fst (signOut env) =
     [SetAuthState \<lparr>status = ''loading'', user = None, token = None\<rparr>, FirebaseSignOut] @
       (case signOut_outcome env of
          Inl e \<Rightarrow> [ConsoleLog e]
        | Inr x \<Rightarrow> [SetAuthState \<lparr>status = ''out'', user = None, token = None\<rparr>]) \<and>
   snd (signOut env) = Inr () \<and>
   authState (apply_effects c (take 2 (fst (signOut env)))) =
     \<lparr>status = ''loading'', user = None, token = None\<rparr> \<and>
   (signOut_outcome env = Inr () \<longrightarrow>
      authState (step c (env, ClickSignOut)) =
        \<lparr>status = ''out'', user = None, token = None\<rparr>) \<and>
   (signOut_outcome env = Inl err \<longrightarrow>
      authState (step c (env, ClickSignOut)) =
        \<lparr>status = ''loading'', user = None, token = None\<rparr> \<and>
      console (step c (env, ClickSignOut)) = console c @ [err] \<and>
      Auth_content (authState (step c (env, ClickSignOut))) = Inr Nothing \<and>
      Auth_render (authState (step c (env, ClickSignOut))) =
        Inr (Elem ''div'' [(''className'', ''auth'')] [Nothing]) \<and>
      (status (authState c) = ''in'' \<longrightarrow>
         authState (step c (env, ClickSignOut)) \<noteq> authState c))"
proof -
  have A: "fst (signOut env) =
     [SetAuthState \<lparr>status = ''loading'', user = None, token = None\<rparr>, FirebaseSignOut] @
       (case signOut_outcome env of
          Inl e \<Rightarrow> [ConsoleLog e]
        | Inr x \<Rightarrow> [SetAuthState \<lparr>status = ''out'', user = None, token = None\<rparr>])"
    by (simp add: signOut_trace st_loading_def st_out_def split: sum.splits)
  have B: "snd (signOut env) = Inr ()"
    by (simp add: signOut_trace)
  have C: "authState (apply_effects c (take 2 (fst (signOut env)))) =
     \<lparr>status = ''loading'', user = None, token = None\<rparr>"
    by (simp add: signOut_trace apply_effects_def st_loading_def)
  have D: "signOut_outcome env = Inr () \<longrightarrow>
      authState (step c (env, ClickSignOut)) =
        \<lparr>status = ''out'', user = None, token = None\<rparr>"
    using signOut_resolved [of env c] by (simp add: st_out_def)
  have E: "signOut_outcome env = Inl err \<longrightarrow>
      authState (step c (env, ClickSignOut)) =
        \<lparr>status = ''loading'', user = None, token = None\<rparr> \<and>
      console (step c (env, ClickSignOut)) = console c @ [err] \<and>
      Auth_content (authState (step c (env, ClickSignOut))) = Inr Nothing \<and>
      Auth_render (authState (step c (env, ClickSignOut))) =
        Inr (Elem ''div'' [(''className'', ''auth'')] [Nothing]) \<and>
      (status (authState c) = ''in'' \<longrightarrow>
         authState (step c (env, ClickSignOut)) \<noteq> authState c)"
  proof
    assume rej: "signOut_outcome env = Inl err"
    have st: "authState (step c (env, ClickSignOut)) = st_loading"
      by (rule signOut_rejected(1) [OF rej])
    have lg: "console (step c (env, ClickSignOut)) = console c @ [err]"
      by (rule signOut_rejected(2) [OF rej])
    have differs: "status (authState c) = ''in'' \<longrightarrow>
         authState (step c (env, ClickSignOut)) \<noteq> authState c"
    proof
      assume "status (authState c) = ''in''"
      moreover have "status (authState (step c (env, ClickSignOut))) = ''loading''"
        by (simp add: st st_loading_def)
      ultimately show "authState (step c (env, ClickSignOut)) \<noteq> authState c"
        by auto
    qed
    show "authState (step c (env, ClickSignOut)) =
        \<lparr>status = ''loading'', user = None, token = None\<rparr> \<and>
      console (step c (env, ClickSignOut)) = console c @ [err] \<and>
      Auth_content (authState (step c (env, ClickSignOut))) = Inr Nothing \<and>
      Auth_render (authState (step c (env, ClickSignOut))) =
        Inr (Elem ''div'' [(''className'', ''auth'')] [Nothing]) \<and>
      (status (authState c) = ''in'' \<longrightarrow>
         authState (step c (env, ClickSignOut)) \<noteq> authState c)"
      using lg differs
      by (simp add: st Auth_loading_renders_nothing)
        (simp add: st_loading_def Auth_content_def)
  qed
  from A B C D E show ?thesis by (intro conjI)
qed

theorem signOut_leaves_loading_on_failure_witness:
  "signOut_outcome env_offline = Inl (Failure ''network'') \<and>
   status (authState signed_in_alice) = ''in'' \<and>
   authState (step signed_in_alice (env_offline, ClickSignOut)) =
     \<lparr>status = ''loading'', user = None, token = None\<rparr> \<and>
   console (step signed_in_alice (env_offline, ClickSignOut)) = [Failure ''network''] \<and>
   Auth_content (authState (step signed_in_alice (env_offline, ClickSignOut))) = Inr Nothing \<and>
   authState (step signed_in_alice (env_offline, ClickSignOut)) \<noteq> authState signed_in_alice \<and>
   signOut_outcome env_claims = Inr () \<and>
   authState (step signed_in_alice (env_claims, ClickSignOut)) =
     \<lparr>status = ''out'', user = None, token = None\<rparr>"
proof -
  note T = signOut_leaves_loading_on_failure
  have h1: "signOut_outcome env_offline = Inl (Failure ''network'')"
    by (simp add: env_offline_def)
  have h2: "status (authState signed_in_alice) = ''in''"
    by (simp add: signed_in_alice_def st_in_def)
  have h3: "signOut_outcome env_claims = Inr ()"
    by (simp add: env_claims_def)
  note R = T [where env = env_offline and c = signed_in_alice and err = "Failure ''network''",
      THEN conjunct2, THEN conjunct2, THEN conjunct2, THEN conjunct2, THEN mp, OF h1]
  have w1: "authState (step signed_in_alice (env_offline, ClickSignOut)) =
     \<lparr>status = ''loading'', user = None, token = None\<rparr>"
    using R by (rule conjunct1)
  have w2: "console (step signed_in_alice (env_offline, ClickSignOut)) = [Failure ''network'']"
    using R [THEN conjunct2, THEN conjunct1] by (simp add: signed_in_alice_def)
  have w3: "Auth_content (authState (step signed_in_alice (env_offline, ClickSignOut))) =
      Inr Nothing"
    using R [THEN conjunct2, THEN conjunct2, THEN conjunct1] .
  have w4: "authState (step signed_in_alice (env_offline, ClickSignOut)) \<noteq>
      authState signed_in_alice"
    using R [THEN conjunct2, THEN conjunct2, THEN conjunct2, THEN conjunct2, THEN mp, OF h2] .
  have w5: "authState (step signed_in_alice (env_claims, ClickSignOut)) =
     \<lparr>status = ''out'', user = None, token = None\<rparr>"
    using T [where env = env_claims and c = signed_in_alice,
        THEN conjunct2, THEN conjunct2, THEN conjunct2, THEN conjunct1, THEN mp, OF h3] .
  show ?thesis using h1 h2 w1 w2 w3 w4 h3 w5 by (intro conjI)
qed

section \<open>Properties of App\<close>

subsection \<open>Routing of requests\<close>

lemma link_routes:
  assumes "gmd (query req) = Inr d"
  shows "link gmd a req =
           Inr (if kind d = ''OperationDefinition'' \<and> operation d = Some ''subscription''
                then wsLink a else httpLink a)"
  by (simp add: link_def split_link_def link_test_def assms)

lemma link_throws:
  assumes "gmd (query req) = Inl e"
  shows "link gmd a req = Inl e"
  by (simp add: link_def split_link_def link_test_def assms)

lemma links_differ: "wsLink a \<noteq> httpLink a"
  by (simp add: wsLink_def httpLink_def)

text \<open>
  Claim C2. A request whose query has a main definition goes to the WebSocket link
  if and only if that definition has kind \<open>OperationDefinition\<close> and operation
  \<open>subscription\<close>; every other such request goes to the HTTP link. (When
  \<open>getMainDefinition\<close> throws, so does the link.)
\<close>

theorem link_splits_on_subscription:
  "(gmd (query req) = Inr d \<longrightarrow>
      (link gmd a req = Inr (wsLink a) \<longleftrightarrow>
         kind d = ''OperationDefinition'' \<and> operation d = Some ''subscription'') \<and>
      (link gmd a req = Inr (httpLink a) \<longleftrightarrow>
         \<not> (kind d = ''OperationDefinition'' \<and> operation d = Some ''subscription'')) \<and>
      link gmd a req \<in> {Inr (wsLink a), Inr (httpLink a)}) \<and>
   wsLink a \<noteq> httpLink a \<and>
   (gmd (query req) = Inl e \<longrightarrow> link gmd a req = Inl e)"
proof -
  have A: "gmd (query req) = Inr d \<longrightarrow>
      (link gmd a req = Inr (wsLink a) \<longleftrightarrow>
         kind d = ''OperationDefinition'' \<and> operation d = Some ''subscription'') \<and>
      (link gmd a req = Inr (httpLink a) \<longleftrightarrow>
         \<not> (kind d = ''OperationDefinition'' \<and> operation d = Some ''subscription'')) \<and>
      link gmd a req \<in> {Inr (wsLink a), Inr (httpLink a)}"
  proof
    assume md: "gmd (query req) = Inr d"
    show "(link gmd a req = Inr (wsLink a) \<longleftrightarrow>
         kind d = ''OperationDefinition'' \<and> operation d = Some ''subscription'') \<and>
      (link gmd a req = Inr (httpLink a) \<longleftrightarrow>
         \<not> (kind d = ''OperationDefinition'' \<and> operation d = Some ''subscription'')) \<and>
      link gmd a req \<in> {Inr (wsLink a), Inr (httpLink a)}"
      using links_differ [of a] links_differ [of a, symmetric] link_routes [of gmd req d a] md
      by simp
  qed
  have C: "gmd (query req) = Inl e \<longrightarrow> link gmd a req = Inl e"
    using link_throws [of gmd req e a] by simp
  from A links_differ C show ?thesis by (intro conjI)
qed

lemmas document_defs =
  PL_SUB_def PL_WITH_LOVE_SUB_def VOTE_MUTATION_def LOVE_MUTATION_def UNLOVE_MUTATION_def

lemma main_definition_static:
  "main_definition PL_SUB = Inr (hd (definitions PL_SUB))"
  "main_definition PL_WITH_LOVE_SUB = Inr (hd (definitions PL_WITH_LOVE_SUB))"
  "main_definition VOTE_MUTATION = Inr (hd (definitions VOTE_MUTATION))"
  by (simp_all add: main_definition_def is_operation_def document_defs)

theorem link_splits_on_subscription_witness:
  "main_definition (query \<lparr>query = PL_WITH_LOVE_SUB, request_variables = [(''userId'', ''a1'')]\<rparr>) =
     Inr (hd (definitions PL_WITH_LOVE_SUB)) \<and>
   kind (hd (definitions PL_WITH_LOVE_SUB)) = ''OperationDefinition'' \<and>
   operation (hd (definitions PL_WITH_LOVE_SUB)) = Some ''subscription'' \<and>
   link main_definition (st_in alice ''jwt-1'')
       \<lparr>query = PL_WITH_LOVE_SUB, request_variables = [(''userId'', ''a1'')]\<rparr> =
     Inr (WebSocketLink ''wss://your-heroku-domain/v1alpha1/graphql'' True
            [(''Authorization'', ''Bearer jwt-1'')]) \<and>
   main_definition (query \<lparr>query = VOTE_MUTATION, request_variables = [(''name'', ''Haskell'')]\<rparr>) =
     Inr (hd (definitions VOTE_MUTATION)) \<and>
   operation (hd (definitions VOTE_MUTATION)) = Some ''mutation'' \<and>
   link main_definition (st_in alice ''jwt-1'')
       \<lparr>query = VOTE_MUTATION, request_variables = [(''name'', ''Haskell'')]\<rparr> =
     Inr (HttpLink ''https://your-heroku-domain/v1alpha1/graphql''
            [(''Authorization'', ''Bearer jwt-1'')]) \<and>
   main_definition (query \<lparr>query = \<lparr>definitions = []\<rparr>, request_variables = []\<rparr>) =
     Inl (Failure ''Expected a parsed GraphQL query'') \<and>
   link main_definition st_out \<lparr>query = \<lparr>definitions = []\<rparr>, request_variables = []\<rparr> =
     Inl (Failure ''Expected a parsed GraphQL query'')"
proof -
  let ?a = "st_in alice ''jwt-1''"
  let ?sub = "\<lparr>query = PL_WITH_LOVE_SUB, request_variables = [(''userId'', ''a1'')]\<rparr>"
  let ?mut = "\<lparr>query = VOTE_MUTATION, request_variables = [(''name'', ''Haskell'')]\<rparr>"
  let ?bad = "\<lparr>query = \<lparr>definitions = []\<rparr>, request_variables = []\<rparr>"
  note T = link_splits_on_subscription
  have h1: "main_definition (query ?sub) = Inr (hd (definitions PL_WITH_LOVE_SUB))"
    by (simp add: main_definition_static)
  have k1: "kind (hd (definitions PL_WITH_LOVE_SUB)) = ''OperationDefinition''"
    by (simp add: document_defs)
  have o1: "operation (hd (definitions PL_WITH_LOVE_SUB)) = Some ''subscription''"
    by (simp add: document_defs)
  have "link main_definition ?a ?sub = Inr (wsLink ?a)"
    using T [where gmd = main_definition and req = ?sub and a = ?a,
        THEN conjunct1, THEN mp, OF h1, THEN conjunct1] k1 o1
    by simp
  then have w1: "link main_definition ?a ?sub =
     Inr (WebSocketLink ''wss://your-heroku-domain/v1alpha1/graphql'' True
            [(''Authorization'', ''Bearer jwt-1'')])"
    by (simp add: wsLink_def headers_def isIn_def st_in_def interpolate_def)
  have h2: "main_definition (query ?mut) = Inr (hd (definitions VOTE_MUTATION))"
    by (simp add: main_definition_static)
  have o2: "operation (hd (definitions VOTE_MUTATION)) = Some ''mutation''"
    by (simp add: document_defs)
  have "link main_definition ?a ?mut = Inr (httpLink ?a)"
    using T [where gmd = main_definition and req = ?mut and a = ?a,
        THEN conjunct1, THEN mp, OF h2, THEN conjunct2, THEN conjunct1] o2
    by simp
  then have w2: "link main_definition ?a ?mut =
     Inr (HttpLink ''https://your-heroku-domain/v1alpha1/graphql''
            [(''Authorization'', ''Bearer jwt-1'')])"
    by (simp add: httpLink_def headers_def isIn_def st_in_def interpolate_def)
  have h3: "main_definition (query ?bad) = Inl (Failure ''Expected a parsed GraphQL query'')"
    by (simp add: main_definition_def)
  have w3: "link main_definition st_out ?bad = Inl (Failure ''Expected a parsed GraphQL query'')"
    using T [where gmd = main_definition and req = ?bad and a = st_out,
        THEN conjunct2, THEN conjunct2, THEN mp, OF h3] .
  show ?thesis using h1 k1 o1 w1 h2 o2 w2 h3 w3 by (intro conjI)
qed


subsection \<open>The subscription and the headers\<close>

lemma App_signed_in:
  assumes "status a = ''in''" and "user a = Some u" and "token a = Some t"
  shows "App a = Inr \<lparr>
      client_http = HttpLink ''https://your-heroku-domain/v1alpha1/graphql''
        [(''Authorization'', ''Bearer '' @ t)],
      client_ws = WebSocketLink ''wss://your-heroku-domain/v1alpha1/graphql'' True
        [(''Authorization'', ''Bearer '' @ t)],
      subscription = PL_WITH_LOVE_SUB,
      variables = Some [(''userId'', uid u)]\<rparr>"
  using assms
  by (simp add: App_def subscription_variables_def subscription_document_def httpLink_def
      wsLink_def headers_def isIn_def interpolate_def)

lemma App_not_signed_in:
  assumes "status a \<noteq> ''in''"
  shows "App a = Inr \<lparr>
      client_http = HttpLink ''https://your-heroku-domain/v1alpha1/graphql'' [],
      client_ws = WebSocketLink ''wss://your-heroku-domain/v1alpha1/graphql'' True [],
      subscription = PL_SUB,
      variables = None\<rparr>"
  using assms
  by (simp add: App_def subscription_variables_def subscription_document_def httpLink_def
      wsLink_def headers_def isIn_def)

lemma headers_empty_iff: "headers a = [] \<longleftrightarrow> status a \<noteq> ''in''"
  by (simp add: headers_def isIn_def)

lemma App_on_reachable: "\<exists>props. App (authState (run initial evs)) = Inr props"
proof (cases "status (authState (run initial evs)) = ''in''")
  case True
  from reachable_in [OF True] obtain u t where "authState (run initial evs) = st_in u t"
    by blast
  then have "user (authState (run initial evs)) = Some u"
    and "token (authState (run initial evs)) = Some t"
    by (simp_all add: st_in_def)
  from App_signed_in [OF True this] show ?thesis by blast
next
  case False
  from App_not_signed_in [OF False] show ?thesis by blast
qed

text \<open>
  Claim C4. App conditions its subscription and its headers on the authentication
  state. With status \<open>'in'\<close> (and the user and token that Auth always stores with it)
  it subscribes with \<open>PL_WITH_LOVE_SUB\<close> and the variables \<open>{userId: authState.user.uid}\<close>,
  and both the HTTP link and the WebSocket link's \<open>connectionParams\<close> carry the header
  \<open>Authorization: Bearer token\<close>. With any other status it subscribes with \<open>PL_SUB\<close>
  and \<open>null\<close> variables, and the headers object is empty. The headers are empty exactly
  when the status is not \<open>'in'\<close>. Every state that Auth can reach renders App without
  a TypeError.
\<close>

theorem App_conditions_on_authState:
  "(status a = ''in'' \<and> user a = Some u \<and> token a = Some t \<longrightarrow>
      App a = Inr \<lparr>
        client_http = HttpLink ''https://your-heroku-domain/v1alpha1/graphql''
          [(''Authorization'', ''Bearer '' @ t)],
        client_ws = WebSocketLink ''wss://your-heroku-domain/v1alpha1/graphql'' True
          [(''Authorization'', ''Bearer '' @ t)],
        subscription = PL_WITH_LOVE_SUB,
        variables = Some [(''userId'', uid u)]\<rparr>) \<and>
   (status a \<noteq> ''in'' \<longrightarrow>
      App a = Inr \<lparr>
        client_http = HttpLink ''https://your-heroku-domain/v1alpha1/graphql'' [],
        client_ws = WebSocketLink ''wss://your-heroku-domain/v1alpha1/graphql'' True [],
        subscription = PL_SUB,
        variables = None\<rparr>) \<and>
   (headers a = [] \<longleftrightarrow> status a \<noteq> ''in'') \<and>
   httpLink a = HttpLink ''https://your-heroku-domain/v1alpha1/graphql'' (headers a) \<and>
   wsLink a = WebSocketLink ''wss://your-heroku-domain/v1alpha1/graphql'' True (headers a) \<and>
   (\<exists>props. App (authState (run initial evs)) = Inr props)"
proof -
  have A: "status a = ''in'' \<and> user a = Some u \<and> token a = Some t \<longrightarrow>
      App a = Inr \<lparr>
        client_http = HttpLink ''https://your-heroku-domain/v1alpha1/graphql''
          [(''Authorization'', ''Bearer '' @ t)],
        client_ws = WebSocketLink ''wss://your-heroku-domain/v1alpha1/graphql'' True
          [(''Authorization'', ''Bearer '' @ t)],
        subscription = PL_WITH_LOVE_SUB,
        variables = Some [(''userId'', uid u)]\<rparr>"
    using App_signed_in [of a u t] by blast
  have B: "status a \<noteq> ''in'' \<longrightarrow>
      App a = Inr \<lparr>
        client_http = HttpLink ''https://your-heroku-domain/v1alpha1/graphql'' [],
        client_ws = WebSocketLink ''wss://your-heroku-domain/v1alpha1/graphql'' True [],
        subscription = PL_SUB,
        variables = None\<rparr>"
    using App_not_signed_in [of a] by blast
  have D: "httpLink a = HttpLink ''https://your-heroku-domain/v1alpha1/graphql'' (headers a)"
    by (simp add: httpLink_def)
  have E: "wsLink a = WebSocketLink ''wss://your-heroku-domain/v1alpha1/graphql'' True (headers a)"
    by (simp add: wsLink_def)
  from A B headers_empty_iff D E App_on_reachable show ?thesis by (intro conjI)
qed

theorem App_conditions_on_authState_witness:
  "App \<lparr>status = ''in'', user = Some alice, token = Some ''jwt-1''\<rparr> = Inr \<lparr>
        client_http = HttpLink ''https://your-heroku-domain/v1alpha1/graphql''
          [(''Authorization'', ''Bearer jwt-1'')],
        client_ws = WebSocketLink ''wss://your-heroku-domain/v1alpha1/graphql'' True
          [(''Authorization'', ''Bearer jwt-1'')],
        subscription = PL_WITH_LOVE_SUB,
        variables = Some [(''userId'', ''a1'')]\<rparr> \<and>
   App \<lparr>status = ''out'', user = None, token = None\<rparr> = Inr \<lparr>
        client_http = HttpLink ''https://your-heroku-domain/v1alpha1/graphql'' [],
        client_ws = WebSocketLink ''wss://your-heroku-domain/v1alpha1/graphql'' True [],
        subscription = PL_SUB,
        variables = None\<rparr> \<and>
   headers \<lparr>status = ''out'', user = None, token = None\<rparr> = []"
proof -
  let ?i = "\<lparr>status = ''in'', user = Some alice, token = Some ''jwt-1''\<rparr>"
  let ?o = "\<lparr>status = ''out'', user = None, token = None\<rparr>"
  note T = App_conditions_on_authState
  have h1: "status ?i = ''in'' \<and> user ?i = Some alice \<and> token ?i = Some ''jwt-1''"
    by simp
  have h2: "status ?o \<noteq> ''in''"
    by simp
  have w1: "App ?i = Inr \<lparr>
        client_http = HttpLink ''https://your-heroku-domain/v1alpha1/graphql''
          [(''Authorization'', ''Bearer jwt-1'')],
        client_ws = WebSocketLink ''wss://your-heroku-domain/v1alpha1/graphql'' True
          [(''Authorization'', ''Bearer jwt-1'')],
        subscription = PL_WITH_LOVE_SUB,
        variables = Some [(''userId'', ''a1'')]\<rparr>"
    using T [where a = ?i and u = alice and t = "''jwt-1''", THEN conjunct1, THEN mp, OF h1]
    by (simp add: alice_def)
  have w2: "App ?o = Inr \<lparr>
        client_http = HttpLink ''https://your-heroku-domain/v1alpha1/graphql'' [],
        client_ws = WebSocketLink ''wss://your-heroku-domain/v1alpha1/graphql'' True [],
        subscription = PL_SUB,
        variables = None\<rparr>"
    using T [where a = ?o, THEN conjunct2, THEN conjunct1, THEN mp, OF h2] .
  have w3: "headers ?o = []"
    using T [where a = ?o, THEN conjunct2, THEN conjunct2, THEN conjunct1] h2 by blast
  show ?thesis using w1 w2 w3 by (intro conjI)
qed

subsection \<open>The render prop of the subscription\<close>

lemma string_of_int_samples:
  "string_of_int 12 = ''12''" "string_of_int 3 = ''3''" "string_of_int 7 = ''7''"
  by code_simp+


lemma children_loading:
  assumes "loading r"
  shows "subscription_children a r = Inr (Text ''loading...'')"
  by (simp add: subscription_children_def assms)

lemma children_error:
  assumes "\<not> loading r" and "error r = Some e"
  shows "subscription_children a r = Inr (Text (message e))"
  by (simp add: subscription_children_def assms)

lemma children_list:
  assumes "\<not> loading r" and "error r = None" and "data r = Some d"
    and "programming_language d = Some pls"
  shows "subscription_children a r =
           (case map_elements (render_pl (isIn a)) pls of
              Inl x \<Rightarrow> Inl x
            | Inr items \<Rightarrow> Inr (Elem ''ul'' [(''className'', ''pl-list'')] items))"
  by (simp add: subscription_children_def assms)

lemma children_ignore_data:
  assumes "loading r \<or> error r \<noteq> None"
  shows "subscription_children a (r\<lparr>data := x\<rparr>) = subscription_children a r"
  using assms by (auto simp: subscription_children_def)

lemma children_throw:
  assumes "subscription_children a r = Inl x"
  shows "\<not> loading r \<and> error r = None"
  using assms by (auto simp: subscription_children_def split: if_splits option.splits)

text \<open>
  Claim C9. The render function of the subscription reads \<open>data\<close> only when \<open>loading\<close>
  is false and \<open>error\<close> is absent: it returns the string \<open>loading...\<close> whenever
  \<open>loading\<close> is true, otherwise \<open>error.message\<close> whenever there is an error, and only in
  the remaining case maps over \<open>data.programming_language\<close>. In the first two cases the
  result does not depend on \<open>data\<close>, and the function throws in the last case only.
\<close>

theorem subscription_render_guards_data:
  "(loading r \<longrightarrow> subscription_children a r = Inr (Text ''loading...'')) \<and>
   (\<not> loading r \<and> error r = Some e \<longrightarrow> subscription_children a r = Inr (Text (message e))) \<and>
   (\<not> loading r \<and> error r = None \<and> data r = Some d \<and> programming_language d = Some pls \<longrightarrow>
      subscription_children a r =
        (case map_elements (render_pl (isIn a)) pls of
           Inl x \<Rightarrow> Inl x
         | Inr items \<Rightarrow> Inr (Elem ''ul'' [(''className'', ''pl-list'')] items))) \<and>
   (loading r \<or> error r \<noteq> None \<longrightarrow>
      subscription_children a (r\<lparr>data := y\<rparr>) = subscription_children a r) \<and>
   (subscription_children a r = Inl z \<longrightarrow> \<not> loading r \<and> error r = None)"
proof -
  have A: "loading r \<longrightarrow> subscription_children a r = Inr (Text ''loading...'')"
    using children_loading [of r a] by blast
  have B: "\<not> loading r \<and> error r = Some e \<longrightarrow>
      subscription_children a r = Inr (Text (message e))"
    using children_error [of r e a] by blast
  have C: "\<not> loading r \<and> error r = None \<and> data r = Some d \<and>
      programming_language d = Some pls \<longrightarrow>
      subscription_children a r =
        (case map_elements (render_pl (isIn a)) pls of
           Inl x \<Rightarrow> Inl x
         | Inr items \<Rightarrow> Inr (Elem ''ul'' [(''className'', ''pl-list'')] items))"
    using children_list [of r d pls a] by blast
  have D: "loading r \<or> error r \<noteq> None \<longrightarrow>
      subscription_children a (r\<lparr>data := y\<rparr>) = subscription_children a r"
    using children_ignore_data [of r a y] by blast
  have E: "subscription_children a r = Inl z \<longrightarrow> \<not> loading r \<and> error r = None"
    using children_throw [of a r z] by blast
  from A B C D E show ?thesis by (intro conjI)
qed


lemmas render_eval =
  subscription_children_def render_pl_def love_content_def isIn_def st_in_def st_out_def
  haskell_def cobol_def rust_def string_of_int_samples

theorem subscription_render_guards_data_witness:
  "loading result_loading \<and>
   subscription_children st_out result_loading = Inr (Text ''loading...'') \<and>
   subscription_children st_out (result_loading\<lparr>data := data result_rows\<rparr>) =
     subscription_children st_out result_loading \<and>
   \<not> loading result_error \<and>
   subscription_children st_out result_error = Inr (Text ''connection lost'') \<and>
   subscription_children st_out result_rows =
     Inr (Elem ''ul'' [(''className'', ''pl-list'')]
       [Elem ''li'' [(''key'', ''Haskell'')]
          [Elem ''span'' [] [Text ''Haskell - 12''],
           Elem ''span'' []
             [Mutation VOTE_MUTATION [(''name'', ''Haskell'')] (Button Mutate ''Vote''), Nothing]],
        Elem ''li'' [(''key'', ''COBOL'')]
          [Elem ''span'' [] [Text ''COBOL - 3''],
           Elem ''span'' []
             [Mutation VOTE_MUTATION [(''name'', ''COBOL'')] (Button Mutate ''Vote''), Nothing]]]) \<and>
   subscription_children st_out result_empty = Inl TypeError \<and>
   \<not> loading result_empty \<and> error result_empty = None"
proof -
  note T = subscription_render_guards_data
  have h1: "loading result_loading"
    by (simp add: result_loading_def)
  have w1: "subscription_children st_out result_loading = Inr (Text ''loading...'')"
    using T [where r = result_loading and a = st_out, THEN conjunct1, THEN mp, OF h1] .
  have h1': "loading result_loading \<or> error result_loading \<noteq> None"
    using h1 by simp
  have w1': "subscription_children st_out (result_loading\<lparr>data := data result_rows\<rparr>) =
     subscription_children st_out result_loading"
    using T [where r = result_loading and a = st_out and y = "data result_rows",
        THEN conjunct2, THEN conjunct2, THEN conjunct2, THEN conjunct1, THEN mp, OF h1'] .
  have h2: "\<not> loading result_error \<and> error result_error = Some \<lparr>message = ''connection lost''\<rparr>"
    by (simp add: result_error_def)
  have w2: "subscription_children st_out result_error = Inr (Text ''connection lost'')"
    using T [where r = result_error and a = st_out and e = "\<lparr>message = ''connection lost''\<rparr>",
        THEN conjunct2, THEN conjunct1, THEN mp, OF h2]
    by simp
  have h3: "\<not> loading result_rows \<and> error result_rows = None \<and>
      data result_rows = Some \<lparr>programming_language = Some [haskell, cobol]\<rparr> \<and>
      programming_language \<lparr>programming_language = Some [haskell, cobol]\<rparr> = Some [haskell, cobol]"
    by (simp add: result_rows_def)
  have w3: "subscription_children st_out result_rows =
     Inr (Elem ''ul'' [(''className'', ''pl-list'')]
       [Elem ''li'' [(''key'', ''Haskell'')]
          [Elem ''span'' [] [Text ''Haskell - 12''],
           Elem ''span'' []
             [Mutation VOTE_MUTATION [(''name'', ''Haskell'')] (Button Mutate ''Vote''), Nothing]],
        Elem ''li'' [(''key'', ''COBOL'')]
          [Elem ''span'' [] [Text ''COBOL - 3''],
           Elem ''span'' []
             [Mutation VOTE_MUTATION [(''name'', ''COBOL'')] (Button Mutate ''Vote''), Nothing]]])"
    using T [where r = result_rows and a = st_out
        and d = "\<lparr>programming_language = Some [haskell, cobol]\<rparr>" and pls = "[haskell, cobol]",
        THEN conjunct2, THEN conjunct2, THEN conjunct1, THEN mp, OF h3]
    by (simp add: render_eval)
  have h4: "subscription_children st_out result_empty = Inl TypeError"
    by (simp add: subscription_children_def result_empty_def)
  have w4: "\<not> loading result_empty \<and> error result_empty = None"
    using T [where r = result_empty and a = st_out and z = TypeError,
        THEN conjunct2, THEN conjunct2, THEN conjunct2, THEN conjunct2, THEN mp, OF h4] .
  show ?thesis
    using h1 w1 w1' h2 [THEN conjunct1] w2 w3 h4 w4 [THEN conjunct1] w4 [THEN conjunct2]
    by (intro conjI)
qed

subsection \<open>Buttons of a language\<close>

lemma documents_differ:
  "VOTE_MUTATION \<noteq> LOVE_MUTATION" "VOTE_MUTATION \<noteq> UNLOVE_MUTATION"
  "LOVE_MUTATION \<noteq> UNLOVE_MUTATION" "UNLOVE_MUTATION \<noteq> LOVE_MUTATION"
  by (simp_all add: document_defs)

lemma render_signed_out:
  "render_pl False p =
     Inr (Elem ''li'' [(''key'', name p)]
       [Elem ''span'' [] [Text (name p @ '' - '' @ string_of_int (vote_count p))],
        Elem ''span'' []
          [Mutation VOTE_MUTATION [(''name'', name p)] (Button Mutate ''Vote''), Nothing]])"
  by (simp add: render_pl_def love_content_def)

lemma render_signed_in:
  assumes "lovedLanguagesByname_aggregate p = Some g"
  shows "render_pl True p =
     Inr (Elem ''li'' [(''key'', name p)]
       [Elem ''span'' [] [Text (name p @ '' - '' @ string_of_int (vote_count p))],
        Elem ''span'' []
          [Mutation VOTE_MUTATION [(''name'', name p)] (Button Mutate ''Vote''),
           if count (aggregate g) = 1
           then Mutation UNLOVE_MUTATION [(''name'', name p)] (Button Mutate ''Unlove'')
           else Mutation LOVE_MUTATION [(''name'', name p)] (Button Mutate ''Love'')]])"
  by (simp add: render_pl_def love_content_def assms)

lemma render_signed_in_throws:
  assumes "lovedLanguagesByname_aggregate p = None"
  shows "render_pl True p = Inl TypeError"
  by (simp add: render_pl_def love_content_def assms)

lemma mutations_signed_out:
  assumes "render_pl False p = Inr el"
  shows "mutations el = [(VOTE_MUTATION, [(''name'', name p)], ''Vote'')]"
  using assms by (auto simp: render_signed_out)

lemma mutations_signed_in:
  assumes "render_pl True p = Inr el" and "lovedLanguagesByname_aggregate p = Some g"
  shows "mutations el =
     [(VOTE_MUTATION, [(''name'', name p)], ''Vote''),
      if count (aggregate g) = 1 then (UNLOVE_MUTATION, [(''name'', name p)], ''Unlove'')
      else (LOVE_MUTATION, [(''name'', name p)], ''Love'')]"
  using assms(1) by (auto simp: render_signed_in [OF assms(2)])








subsection \<open>The static documents and their use\<close>

lemma static_documents_distinct: "distinct static_documents"
  by (simp add: static_documents_def document_defs)

lemma button_documents_signed_out:
  "{doc. \<exists>p el vs l. render_pl False p = Inr el \<and> (doc, vs, l) \<in> set (mutations el)} =
     {VOTE_MUTATION}"
proof (intro equalityI subsetI)
  fix doc
  assume "doc \<in> {doc. \<exists>p el vs l. render_pl False p = Inr el \<and> (doc, vs, l) \<in> set (mutations el)}"
  then obtain p el vs l where ok: "render_pl False p = Inr el"
    and m: "(doc, vs, l) \<in> set (mutations el)"
    by blast
  from m mutations_signed_out [OF ok] show "doc \<in> {VOTE_MUTATION}" by simp
next
  fix doc
  assume "doc \<in> {VOTE_MUTATION}"
  then have d: "doc = VOTE_MUTATION" by simp
  obtain el where ok: "render_pl False rust = Inr el"
    by (simp add: render_signed_out)
  from mutations_signed_out [OF ok]
  have "(VOTE_MUTATION, [(''name'', name rust)], ''Vote'') \<in> set (mutations el)" by simp
  with ok d
  show "doc \<in> {doc. \<exists>p el vs l. render_pl False p = Inr el \<and> (doc, vs, l) \<in> set (mutations el)}"
    by blast
qed

lemma button_documents_signed_in:
  "{doc. \<exists>p el vs l. render_pl True p = Inr el \<and> (doc, vs, l) \<in> set (mutations el)} =
     {VOTE_MUTATION, LOVE_MUTATION, UNLOVE_MUTATION}"
proof (intro equalityI subsetI)
  fix doc
  assume "doc \<in> {doc. \<exists>p el vs l. render_pl True p = Inr el \<and> (doc, vs, l) \<in> set (mutations el)}"
  then obtain p el vs l where ok: "render_pl True p = Inr el"
    and m: "(doc, vs, l) \<in> set (mutations el)"
    by blast
  from ok render_signed_in_throws [of p] obtain g
    where agg: "lovedLanguagesByname_aggregate p = Some g"
    by (cases "lovedLanguagesByname_aggregate p") auto
  from m mutations_signed_in [OF ok agg]
  show "doc \<in> {VOTE_MUTATION, LOVE_MUTATION, UNLOVE_MUTATION}"
    by (auto split: if_splits)
next
  fix doc
  assume d: "doc \<in> {VOTE_MUTATION, LOVE_MUTATION, UNLOVE_MUTATION}"
  have h: "lovedLanguagesByname_aggregate haskell = Some \<lparr>aggregate = \<lparr>count = 1\<rparr>\<rparr>"
    by (simp add: haskell_def)
  have c: "lovedLanguagesByname_aggregate cobol = Some \<lparr>aggregate = \<lparr>count = 0\<rparr>\<rparr>"
    by (simp add: cobol_def)
  obtain eh where okh: "render_pl True haskell = Inr eh"
    by (simp add: render_signed_in [OF h])
  obtain ec where okc: "render_pl True cobol = Inr ec"
    by (simp add: render_signed_in [OF c])
  have mh: "mutations eh = [(VOTE_MUTATION, [(''name'', name haskell)], ''Vote''),
      (UNLOVE_MUTATION, [(''name'', name haskell)], ''Unlove'')]"
    using mutations_signed_in [OF okh h] by simp
  have mc: "mutations ec = [(VOTE_MUTATION, [(''name'', name cobol)], ''Vote''),
      (LOVE_MUTATION, [(''name'', name cobol)], ''Love'')]"
    using mutations_signed_in [OF okc c] by simp
  have v: "\<exists>p el vs l. render_pl True p = Inr el \<and> (VOTE_MUTATION, vs, l) \<in> set (mutations el)"
    using okh mh by (intro exI [of _ haskell] exI [of _ eh]) auto
  have u: "\<exists>p el vs l. render_pl True p = Inr el \<and> (UNLOVE_MUTATION, vs, l) \<in> set (mutations el)"
    using okh mh by (intro exI [of _ haskell] exI [of _ eh]) auto
  have lv: "\<exists>p el vs l. render_pl True p = Inr el \<and> (LOVE_MUTATION, vs, l) \<in> set (mutations el)"
    using okc mc by (intro exI [of _ cobol] exI [of _ ec]) auto
  from d v u lv
  show "doc \<in> {doc. \<exists>p el vs l. render_pl True p = Inr el \<and> (doc, vs, l) \<in> set (mutations el)}"
    by auto
qed

lemma card_button_documents: "card {VOTE_MUTATION, LOVE_MUTATION, UNLOVE_MUTATION} = 3"
  using documents_differ by simp

text \<open>
  Claim C6, as amended. The vote, love and unlove buttons are bound to exactly three
  static GraphQL documents, the mutations \<open>VOTE_MUTATION\<close>, \<open>LOVE_MUTATION\<close> and
  \<open>UNLOVE_MUTATION\<close> (signed out, to \<open>VOTE_MUTATION\<close> alone). The data component defines
  five static documents, all different; the other two, \<open>PL_SUB\<close> and \<open>PL_WITH_LOVE_SUB\<close>,
  are the documents of the subscription, one per authentication state.
\<close>

theorem buttons_bound_to_three_of_five_documents:
  "{doc. \<exists>p el vs l. render_pl True p = Inr el \<and> (doc, vs, l) \<in> set (mutations el)} =
     {VOTE_MUTATION, LOVE_MUTATION, UNLOVE_MUTATION} \<and>
   {doc. \<exists>p el vs l. render_pl False p = Inr el \<and> (doc, vs, l) \<in> set (mutations el)} =
     {VOTE_MUTATION} \<and>
   card {VOTE_MUTATION, LOVE_MUTATION, UNLOVE_MUTATION} = 3 \<and>
   static_documents =
     [PL_SUB, PL_WITH_LOVE_SUB, VOTE_MUTATION, LOVE_MUTATION, UNLOVE_MUTATION] \<and>
   distinct static_documents \<and>
   card (set static_documents) = 5 \<and>
   subscription_document a = (if status a = ''in'' then PL_WITH_LOVE_SUB else PL_SUB)"
proof -
  have E: "card (set static_documents) = 5"
    using static_documents_distinct by (simp add: distinct_card static_documents_def)
  have F: "subscription_document a = (if status a = ''in'' then PL_WITH_LOVE_SUB else PL_SUB)"
    by (simp add: subscription_document_def isIn_def)
  from button_documents_signed_in button_documents_signed_out card_button_documents
    static_documents_def static_documents_distinct E F
  show ?thesis by (intro conjI)
qed

text \<open>
  The claim as stated fails: on the list that shows every kind of button (a signed-in
  user, one loved and one unloved language) the buttons are bound to three documents,
  and the component defines five.
\<close>

theorem four_static_documents_counterexample:
  "subscription_children (st_in alice ''jwt-1'') result_rows =
     Inr (Elem ''ul'' [(''className'', ''pl-list'')] [li_haskell_in, li_cobol_in]) \<and>
   remdups (map fst (mutations (Elem ''ul'' [(''className'', ''pl-list'')]
       [li_haskell_in, li_cobol_in]))) =
     [UNLOVE_MUTATION, VOTE_MUTATION, LOVE_MUTATION] \<and>
   length (remdups (map fst (mutations (Elem ''ul'' [(''className'', ''pl-list'')]
       [li_haskell_in, li_cobol_in])))) \<noteq> 4 \<and>
   length (remdups static_documents) \<noteq> 4"
proof -
  have A: "subscription_children (st_in alice ''jwt-1'') result_rows =
     Inr (Elem ''ul'' [(''className'', ''pl-list'')] [li_haskell_in, li_cobol_in])"
    by (simp add: result_rows_def li_haskell_in_def li_cobol_in_def render_eval)
  have B: "remdups (map fst (mutations (Elem ''ul'' [(''className'', ''pl-list'')]
       [li_haskell_in, li_cobol_in]))) =
     [UNLOVE_MUTATION, VOTE_MUTATION, LOVE_MUTATION]"
    using documents_differ by (simp add: li_haskell_in_def li_cobol_in_def)
  have C: "length (remdups (map fst (mutations (Elem ''ul'' [(''className'', ''pl-list'')]
       [li_haskell_in, li_cobol_in])))) \<noteq> 4"
    by (simp only: B) simp
  have D: "length (remdups static_documents) \<noteq> 4"
    using static_documents_distinct by (simp add: static_documents_def)
  from A B C D show ?thesis by (intro conjI)
qed

section \<open>Properties of the cloud function\<close>

lemmas cloud_defs = processSignUp_def setCustomUserClaims_def database_set_def
  await_def try_catch_def perform_def

lemma processSignUp_trace:
  "processSignUp env u =
     (SetCustomUserClaims (uid u) (customClaims u) #
        (case setCustomUserClaims_outcome env of
           Inl e \<Rightarrow> [CloudLog e]
         | Inr x \<Rightarrow>
             DatabaseSet (''metadata/'' @ uid u) (Obj [(''refreshTime'', Num (now env))]) #
               (case database_set_outcome env of
                  Inl e \<Rightarrow> [CloudLog e]
                | Inr y \<Rightarrow> [])),
      Inr ())"
  by (simp add: cloud_defs split: sum.splits)

lemma written_refreshTime:
  "written (''metadata/'' @ uid u) (Obj [(''refreshTime'', Num n)]) =
     [(''metadata/'' @ uid u @ ''/refreshTime'', Num n)]"
  by (simp add: written_def)

lemma processSignUp_set_after_claims:
  assumes "DatabaseSet q x \<in> set (fst (processSignUp env u))"
  shows "setCustomUserClaims_outcome env = Inr () \<and>
         (\<exists>rest. fst (processSignUp env u) =
            SetCustomUserClaims (uid u) (customClaims u) # DatabaseSet q x # rest) \<and>
         written q x = [(''metadata/'' @ uid u @ ''/refreshTime'', Num (now env))]"
  using assms
  by (auto simp: processSignUp_trace written_def split: sum.splits)

text \<open>
  Claim C7. For every newly created user \<open>processSignUp\<close> sets custom claims that hold,
  under \<open>https://hasura.io/jwt/claims\<close>, the default role \<open>user\<close>, the allowed roles
  \<open>['user']\<close> and the user's uid as \<open>x-hasura-user-id\<close>. Only when setting the claims has
  resolved does it write the current timestamp to \<open>metadata/{uid}/refreshTime\<close>, the
  path the browser listens on. An error of either call is logged, and the promise the
  function returns resolves all the same.
\<close>

theorem processSignUp_claims_then_refreshTime:
  "customClaims u = Obj
     [(''https://hasura.io/jwt/claims'', Obj
        [(''x-hasura-default-role'', Str ''user''),
         (''x-hasura-allowed-roles'', Arr [Str ''user'']),
         (''x-hasura-user-id'', Str (uid u))])] \<and>
   fst (processSignUp env u) =
     SetCustomUserClaims (uid u) (customClaims u) #
       (case setCustomUserClaims_outcome env of
          Inl e \<Rightarrow> [CloudLog e]
        | Inr x \<Rightarrow>
            DatabaseSet (''metadata/'' @ uid u) (Obj [(''refreshTime'', Num (now env))]) #
              (case database_set_outcome env of
                 Inl e \<Rightarrow> [CloudLog e]
               | Inr y \<Rightarrow> [])) \<and>
   snd (processSignUp env u) = Inr () \<and>
   (DatabaseSet q x \<in> set (fst (processSignUp env u)) \<longrightarrow>
      setCustomUserClaims_outcome env = Inr () \<and>
      (\<exists>rest. fst (processSignUp env u) =
         SetCustomUserClaims (uid u) (customClaims u) # DatabaseSet q x # rest) \<and>
      written q x = [(''metadata/'' @ uid u @ ''/refreshTime'', Num (now env))]) \<and>
   (setCustomUserClaims_outcome env = Inr () \<and> database_set_outcome env = Inr () \<longrightarrow>
      fst (processSignUp env u) =
        [SetCustomUserClaims (uid u) (customClaims u),
         DatabaseSet (''metadata/'' @ uid u) (Obj [(''refreshTime'', Num (now env))])]) \<and>
   written (''metadata/'' @ uid u) (Obj [(''refreshTime'', Num (now env))]) =
     [(refreshTime_path u, Num (now env))] \<and>
   (\<exists>fs. customClaims u = Obj fs \<and> truthy (lookup fs hasura_claims_key))"
proof -
  have A: "customClaims u = Obj
     [(''https://hasura.io/jwt/claims'', Obj
        [(''x-hasura-default-role'', Str ''user''),
         (''x-hasura-allowed-roles'', Arr [Str ''user'']),
         (''x-hasura-user-id'', Str (uid u))])]"
    by (simp add: customClaims_def)
  have B: "fst (processSignUp env u) =
     SetCustomUserClaims (uid u) (customClaims u) #
       (case setCustomUserClaims_outcome env of
          Inl e \<Rightarrow> [CloudLog e]
        | Inr x \<Rightarrow>
            DatabaseSet (''metadata/'' @ uid u) (Obj [(''refreshTime'', Num (now env))]) #
              (case database_set_outcome env of
                 Inl e \<Rightarrow> [CloudLog e]
               | Inr y \<Rightarrow> []))"
    by (simp add: processSignUp_trace)
  have C: "snd (processSignUp env u) = Inr ()"
    by (simp add: processSignUp_trace)
  have D: "DatabaseSet q x \<in> set (fst (processSignUp env u)) \<longrightarrow>
      setCustomUserClaims_outcome env = Inr () \<and>
      (\<exists>rest. fst (processSignUp env u) =
         SetCustomUserClaims (uid u) (customClaims u) # DatabaseSet q x # rest) \<and>
      written q x = [(''metadata/'' @ uid u @ ''/refreshTime'', Num (now env))]"
    using processSignUp_set_after_claims [of q x env u] by blast
  have E: "setCustomUserClaims_outcome env = Inr () \<and> database_set_outcome env = Inr () \<longrightarrow>
      fst (processSignUp env u) =
        [SetCustomUserClaims (uid u) (customClaims u),
         DatabaseSet (''metadata/'' @ uid u) (Obj [(''refreshTime'', Num (now env))])]"
    by (simp add: processSignUp_trace)
  have F: "written (''metadata/'' @ uid u) (Obj [(''refreshTime'', Num (now env))]) =
     [(refreshTime_path u, Num (now env))]"
    by (simp add: written_def refreshTime_path_def)
  have G: "\<exists>fs. customClaims u = Obj fs \<and> truthy (lookup fs hasura_claims_key)"
    by (simp add: customClaims_def lookup_def hasura_claims_key_def)
  from A B C D E F G show ?thesis by (intro conjI)
qed

theorem processSignUp_claims_then_refreshTime_witness:
  "processSignUp cloud_ok alice =
     ([SetCustomUserClaims ''a1'' (customClaims alice),
       DatabaseSet ''metadata/a1'' (Obj [(''refreshTime'', Num 1554000000000)])], Inr ()) \<and>
   written ''metadata/a1'' (Obj [(''refreshTime'', Num 1554000000000)]) =
     [(''metadata/a1/refreshTime'', Num 1554000000000)] \<and>
   setCustomUserClaims_outcome cloud_ok = Inr () \<and>
   processSignUp cloud_claims_fail alice =
     ([SetCustomUserClaims ''a1'' (customClaims alice), CloudLog (Failure ''auth/internal-error'')],
      Inr ()) \<and>
   processSignUp cloud_set_fail alice =
     ([SetCustomUserClaims ''a1'' (customClaims alice),
       DatabaseSet ''metadata/a1'' (Obj [(''refreshTime'', Num 1554000000000)]),
       CloudLog (Failure ''permission denied'')], Inr ())"
proof -
  note T = processSignUp_claims_then_refreshTime
  have h1: "setCustomUserClaims_outcome cloud_ok = Inr () \<and> database_set_outcome cloud_ok = Inr ()"
    by (simp add: cloud_ok_def)
  have t1: "fst (processSignUp cloud_ok alice) =
        [SetCustomUserClaims (uid alice) (customClaims alice),
         DatabaseSet (''metadata/'' @ uid alice) (Obj [(''refreshTime'', Num (now cloud_ok))])]"
    using T [where env = cloud_ok and u = alice, THEN conjunct2, THEN conjunct2, THEN conjunct2,
        THEN conjunct2, THEN conjunct1, THEN mp, OF h1] .
  have s1: "snd (processSignUp cloud_ok alice) = Inr ()"
    using T [where env = cloud_ok and u = alice, THEN conjunct2, THEN conjunct2, THEN conjunct1] .
  have w1: "processSignUp cloud_ok alice =
     ([SetCustomUserClaims ''a1'' (customClaims alice),
       DatabaseSet ''metadata/a1'' (Obj [(''refreshTime'', Num 1554000000000)])], Inr ())"
    using t1 s1 by (simp add: prod_eq_iff alice_def cloud_ok_def)
  have h2: "DatabaseSet ''metadata/a1'' (Obj [(''refreshTime'', Num 1554000000000)]) \<in>
      set (fst (processSignUp cloud_ok alice))"
    by (simp add: w1)
  note R = T [where env = cloud_ok and u = alice and q = "''metadata/a1''"
        and x = "Obj [(''refreshTime'', Num 1554000000000)]",
        THEN conjunct2, THEN conjunct2, THEN conjunct2, THEN conjunct1, THEN mp, OF h2]
  have w2: "written ''metadata/a1'' (Obj [(''refreshTime'', Num 1554000000000)]) =
     [(''metadata/a1/refreshTime'', Num 1554000000000)]"
    using R [THEN conjunct2, THEN conjunct2] by (simp add: alice_def cloud_ok_def)
  have w3: "setCustomUserClaims_outcome cloud_ok = Inr ()"
    using R [THEN conjunct1] .
  have t4: "fst (processSignUp cloud_claims_fail alice) =
      [SetCustomUserClaims ''a1'' (customClaims alice), CloudLog (Failure ''auth/internal-error'')]"
    using T [where env = cloud_claims_fail and u = alice, THEN conjunct2, THEN conjunct1]
    by (simp add: cloud_claims_fail_def alice_def)
  have s4: "snd (processSignUp cloud_claims_fail alice) = Inr ()"
    using T [where env = cloud_claims_fail and u = alice, THEN conjunct2, THEN conjunct2,
        THEN conjunct1] .
  have w4: "processSignUp cloud_claims_fail alice =
     ([SetCustomUserClaims ''a1'' (customClaims alice), CloudLog (Failure ''auth/internal-error'')],
      Inr ())"
    using t4 s4 by (simp add: prod_eq_iff)
  have t5: "fst (processSignUp cloud_set_fail alice) =
      [SetCustomUserClaims ''a1'' (customClaims alice),
       DatabaseSet ''metadata/a1'' (Obj [(''refreshTime'', Num 1554000000000)]),
       CloudLog (Failure ''permission denied'')]"
    using T [where env = cloud_set_fail and u = alice, THEN conjunct2, THEN conjunct1]
    by (simp add: cloud_set_fail_def alice_def)
  have s5: "snd (processSignUp cloud_set_fail alice) = Inr ()"
    using T [where env = cloud_set_fail and u = alice, THEN conjunct2, THEN conjunct2,
        THEN conjunct1] .
  have w5: "processSignUp cloud_set_fail alice =
     ([SetCustomUserClaims ''a1'' (customClaims alice),
       DatabaseSet ''metadata/a1'' (Obj [(''refreshTime'', Num 1554000000000)]),
       CloudLog (Failure ''permission denied'')], Inr ())"
    using t5 s5 by (simp add: prod_eq_iff)
  show ?thesis using w1 w2 w3 w4 w5 by (intro conjI)
qed

end
